theory Spec2Isabelle
  imports Main
begin

section \<open>The application object of appbase (application.cpp)\<close>

text \<open>
  The development embeds \<^verbatim>\<open>src/application.cpp\<close>: the plugin registry, the lifecycle
  loops \<^verbatim>\<open>startup\<close> and \<^verbatim>\<open>shutdown\<close>, the option aggregation, the default
  configuration file writer and \<^verbatim>\<open>initialize_impl\<close>.

  A C++ exception is a value \<open>Inl e\<close> of the result type \<open>exception + 'a\<close>; a function
  that returns normally gives \<open>Inr\<close> of its result and the state it leaves. The state at
  the moment of a throw is not tracked. Dereferencing a pointer to a plugin that has
  been destroyed is undefined in C++; the model gives it the value
  \<open>Inl undefined_behaviour\<close>, so that no theorem can silently rely on it.
\<close>

subsection \<open>Exceptions\<close>

datatype exception =
    runtime_error string
  | unknown_option string
  | multiple_occurrences string
  | multiple_values string
  | validation_error string
  | invalid_config_file_syntax string
  | reading_file string
  | filesystem_error string
  | bad_any_cast
  | out_of_range
  | undefined_behaviour

subsection \<open>Option descriptions (the part of boost::program_options the code reads)\<close>

text \<open>
  A \<^verbatim>\<open>value_semantic\<close> carries what the code and \<^verbatim>\<open>bpo::store\<close> read from it:
  whether a default value was declared (\<open>m_default_value\<close>, \<open>None\<close> for the empty
  \<^verbatim>\<open>boost::any\<close>, otherwise the default as a value), the default rendered as text,
  whether the option takes no token (\<^verbatim>\<open>zero_tokens\<close>, as \<^verbatim>\<open>bool_switch\<close> and the
  untyped options \<^verbatim>\<open>help\<close> and \<^verbatim>\<open>version\<close> do), whether it is composing and whether
  its value is a vector. Implicit values and custom value names are not modelled.
\<close>

datatype any = any_string string | any_strings "string list"

record value_semantic =
  m_default_value :: "any option"
  m_default_value_as_text :: string
  m_zero_tokens :: bool
  m_composing :: bool
  m_vector :: bool

record option_description =
  long_name :: string
  description :: string
  semantic :: value_semantic

text \<open>\<^verbatim>\<open>value_semantic::apply_default\<close>: true exactly when a default value was declared.\<close>

definition apply_default :: "value_semantic \<Rightarrow> bool" where
  "apply_default sem = (m_default_value sem \<noteq> None)"

text \<open>
  \<^verbatim>\<open>typed_value::name\<close>: \<^verbatim>\<open>arg (=<text>)\<close> when a default with a non-empty text was
  declared, \<^verbatim>\<open>arg\<close> otherwise.
\<close>

definition semantic_name :: "value_semantic \<Rightarrow> string" where
  "semantic_name sem =
     (if m_default_value sem \<noteq> None \<and> m_default_value_as_text sem \<noteq> []
      then ''arg (='' @ m_default_value_as_text sem @ '')''
      else ''arg'')"

text \<open>
  \<^verbatim>\<open>option_description::format_parameter\<close>: the name of the semantic, or the empty
  string for an option that takes no token.
\<close>

definition format_parameter :: "option_description \<Rightarrow> string" where
  "format_parameter od =
     (if m_zero_tokens (semantic od) then [] else semantic_name (semantic od))"

text \<open>
  An \<^verbatim>\<open>options_description\<close>: its caption, the flat list \<^verbatim>\<open>options()\<close> of all its
  options, and the groups added to it (caption and options of each), which only the
  help output shows.
\<close>

record options_description =
  m_caption :: string
  m_options :: "option_description list"
  m_groups :: "(string \<times> option_description list) list"

definition new_options_description :: "string \<Rightarrow> options_description" where
  "new_options_description cap = \<lparr>m_caption = cap, m_options = [], m_groups = []\<rparr>"

text \<open>\<^verbatim>\<open>options_description::add(const options_description&)\<close>.\<close>

definition add :: "options_description \<Rightarrow> options_description \<Rightarrow> options_description" where
  "add desc g =
     desc\<lparr>m_options := m_options desc @ m_options g,
          m_groups := m_groups desc @ [(m_caption g, m_options g)]\<rparr>"

text \<open>\<^verbatim>\<open>add_options()(...)\<close>: one more option of the description itself.\<close>

definition add_option :: "options_description \<Rightarrow> option_description \<Rightarrow> options_description" where
  "add_option desc od = desc\<lparr>m_options := m_options desc @ [od]\<rparr>"

subsection \<open>Plugins and the application state\<close>

text \<open>
  \<^verbatim>\<open>abstract_plugin::state\<close>, with the states the specification names. A plugin object
  has a name, a state and the options its \<^verbatim>\<open>set_program_options\<close> declares.
\<close>

datatype state = registered | initialized | started

record abstract_plugin =
  name :: string
  get_state :: state
  cli_opts :: "option_description list"
  cfg_opts :: "option_description list"

text \<open>A pointer to a plugin is an address; \<open>None\<close> is the null pointer.\<close>

type_synonym addr = nat

text \<open>The member functions of a plugin that the application invokes, as logged.\<close>

datatype call = call_initialize addr | call_startup addr | call_shutdown addr

text \<open>
  Paths are the strings \<^verbatim>\<open>bfs::path\<close> holds, in the POSIX format. A node of the file
  system is a regular file with its contents or a directory.
\<close>

type_synonym path = string

datatype node = regular_file string | directory

text \<open>What was written to \<^verbatim>\<open>std::cout\<close>.\<close>

datatype printed = out_options_description options_description | out_string string

text \<open>
  The application with the world it acts on. \<open>plugins\<close> is the
  \<^verbatim>\<open>map<string, unique_ptr<abstract_plugin>>\<close>, as the list of its entries in
  iteration order; the entry owns the plugin object at its address. \<open>heap\<close> holds the
  plugin objects that are alive. \<open>initialized_plugins\<close> and \<open>running_plugins\<close> are the
  two vectors of plugin pointers. \<open>my_app_options\<close>, \<open>my_cfg_options\<close> and
  \<open>my_data_dir\<close> are the members of \<^verbatim>\<open>application_impl\<close>. \<open>fs\<close> is the file system
  (keyed by absolute path), \<open>cwd\<close> the current directory, \<open>cout\<close> the standard output,
  and \<open>calls\<close> the log of the lifecycle member functions the application has invoked
  on plugins (a ghost field: the code does not keep it).
\<close>

record application =
  plugins :: "(string \<times> addr) list"
  initialized_plugins :: "addr list"
  running_plugins :: "addr list"
  my_app_options :: options_description
  my_cfg_options :: options_description
  my_data_dir :: path
  heap :: "addr \<rightharpoonup> abstract_plugin"
  fs :: "path \<rightharpoonup> node"
  cwd :: path
  cout :: "printed list"
  calls :: "call list"

subsection \<open>The lifecycle members of a plugin\<close>

text \<open>
  Modelled from the spec: \<^verbatim>\<open>abstract_plugin::startup\<close>, whose definition (the plugin
  header) is not among the sources. The specification: calling startup on a plugin
  already at or past \<open>started\<close> is a no-op, no transition skips a state, and a plugin
  that starts is moved to \<open>started\<close> and appended to the started sequence. The work of
  the concrete plugin is out of scope and has no effect on the application here. The
  invocation itself is logged.
\<close>

definition plugin_startup :: "addr \<Rightarrow> application \<Rightarrow> exception + application" where
  "plugin_startup p s =
     (case heap s p of
        None \<Rightarrow> Inl undefined_behaviour
      | Some pl \<Rightarrow>
          let s1 = s\<lparr>calls := calls s @ [call_startup p]\<rparr> in
          if get_state pl = initialized
          then Inr (s1\<lparr>heap := (heap s)(p \<mapsto> pl\<lparr>get_state := started\<rparr>),
                       running_plugins := running_plugins s @ [p]\<rparr>)
          else Inr s1)"

text \<open>
  Modelled from the spec: \<^verbatim>\<open>abstract_plugin::shutdown\<close>, not among the sources. The
  specification gives the shutdown capability no transition of its own: a started
  plugin is removed when the registry is cleared. The invocation is logged.
\<close>

definition plugin_shutdown :: "addr \<Rightarrow> application \<Rightarrow> exception + application" where
  "plugin_shutdown p s =
     (case heap s p of
        None \<Rightarrow> Inl undefined_behaviour
      | Some pl \<Rightarrow> Inr (s\<lparr>calls := calls s @ [call_shutdown p]\<rparr>))"

text \<open>
  Modelled from the spec: \<^verbatim>\<open>abstract_plugin::initialize\<close>, not among the sources.
  The specification: if the state is already beyond \<open>registered\<close> the call is a no-op;
  otherwise the plugin is moved to \<open>initialized\<close> and appended to the initialized
  sequence. The parsed options are handed to the concrete plugin, whose work is out of
  scope. The invocation is logged.
\<close>

definition plugin_initialize :: "addr \<Rightarrow> application \<Rightarrow> exception + application" where
  "plugin_initialize p s =
     (case heap s p of
        None \<Rightarrow> Inl undefined_behaviour
      | Some pl \<Rightarrow>
          let s1 = s\<lparr>calls := calls s @ [call_initialize p]\<rparr> in
          if get_state pl = registered
          then Inr (s1\<lparr>heap := (heap s)(p \<mapsto> pl\<lparr>get_state := initialized\<rparr>),
                       initialized_plugins := initialized_plugins s @ [p]\<rparr>)
          else Inr s1)"

subsection \<open>startup and shutdown\<close>

text \<open>
  \<^verbatim>\<open>for (auto plugin : initialized_plugins) plugin->startup();\<close>
  The plugin's startup does not touch \<open>initialized_plugins\<close>, so the loop runs over the
  vector as it is on entry.
\<close>

fun startup_loop :: "addr list \<Rightarrow> application \<Rightarrow> exception + application" where
  "startup_loop [] s = Inr s"
| "startup_loop (p # ps) s =
     (case plugin_startup p s of Inl e \<Rightarrow> Inl e | Inr s' \<Rightarrow> startup_loop ps s')"

definition startup :: "application \<Rightarrow> exception + application" where
  "startup s = startup_loop (initialized_plugins s) s"

text \<open>The first loop of \<^verbatim>\<open>shutdown\<close>, over the pointers it is given in order.\<close>

fun shutdown_loop :: "addr list \<Rightarrow> application \<Rightarrow> exception + application" where
  "shutdown_loop [] s = Inr s"
| "shutdown_loop (p # ps) s =
     (case plugin_shutdown p s of Inl e \<Rightarrow> Inl e | Inr s' \<Rightarrow> shutdown_loop ps s')"

text \<open>
  \<^verbatim>\<open>plugins.erase(key)\<close>: the entry of that key, if there is one, is removed and the
  plugin object it owns is destroyed.
\<close>

definition erase :: "string \<Rightarrow> application \<Rightarrow> application" where
  "erase k s =
     (case map_of (plugins s) k of
        None \<Rightarrow> s
      | Some a \<Rightarrow> s\<lparr>plugins := filter (\<lambda>e. fst e \<noteq> k) (plugins s),
                     heap := (heap s)(a := None)\<rparr>)"

text \<open>The second loop: \<^verbatim>\<open>plugins.erase((*ritr)->name())\<close> for each pointer.\<close>

fun erase_loop :: "addr list \<Rightarrow> application \<Rightarrow> exception + application" where
  "erase_loop [] s = Inr s"
| "erase_loop (p # ps) s =
     (case heap s p of
        None \<Rightarrow> Inl undefined_behaviour
      | Some pl \<Rightarrow> erase_loop ps (erase (name pl) s))"

text \<open>\<^verbatim>\<open>plugins.clear()\<close>: every entry is removed and the objects they own destroyed.\<close>

definition clear_plugins :: "application \<Rightarrow> application" where
  "clear_plugins s =
     s\<lparr>plugins := [], heap := (\<lambda>a. if a \<in> snd ` set (plugins s) then None else heap s a)\<rparr>"

text \<open>\<^verbatim>\<open>application::shutdown\<close>: both loops run over \<open>running_plugins\<close> in reverse.\<close>

definition shutdown :: "application \<Rightarrow> exception + application" where
  "shutdown s =
     (case shutdown_loop (rev (running_plugins s)) s of
        Inl e \<Rightarrow> Inl e
      | Inr s1 \<Rightarrow>
          (case erase_loop (rev (running_plugins s1)) s1 of
             Inl e \<Rightarrow> Inl e
           | Inr s2 \<Rightarrow>
               Inr (clear_plugins (s2\<lparr>running_plugins := [], initialized_plugins := []\<rparr>))))"

subsection \<open>find_plugin and get_plugin\<close>

text \<open>\<^verbatim>\<open>application::find_plugin\<close>: the pointer of the entry, or the null pointer.\<close>

definition find_plugin :: "application \<Rightarrow> string \<Rightarrow> addr option" where
  "find_plugin s n = map_of (plugins s) n"

text \<open>\<^verbatim>\<open>application::get_plugin\<close>: throws when \<^verbatim>\<open>find_plugin\<close> gives the null pointer.\<close>

definition get_plugin :: "application \<Rightarrow> string \<Rightarrow> exception + addr" where
  "get_plugin s n =
     (case find_plugin s n of
        None \<Rightarrow> Inl (runtime_error (''unable to find plugin: '' @ n))
      | Some ptr \<Rightarrow> Inr ptr)"

subsection \<open>Paths and the file system (the part of boost::filesystem the code uses)\<close>

text \<open>
  A path names a node by its text: two different texts are two different nodes (no
  symbolic link, no normalisation of \<^verbatim>\<open>.\<close>, \<^verbatim>\<open>..\<close> or doubled separators), and
  permissions are not modelled.
\<close>

definition is_relative :: "path \<Rightarrow> bool" where
  "is_relative p = (case p of [] \<Rightarrow> True | c # _ \<Rightarrow> c \<noteq> CHR ''/'')"

text \<open>
  \<^verbatim>\<open>operator/\<close>: appends, with a separator between the two unless the left side is
  empty or ends with one or the right side starts with one; appending the empty path
  changes nothing.
\<close>

definition path_append :: "path \<Rightarrow> path \<Rightarrow> path" where
  "path_append p q =
     (case q of
        [] \<Rightarrow> p
      | c # _ \<Rightarrow>
          if c \<noteq> CHR ''/'' \<and> p \<noteq> [] \<and> last p \<noteq> CHR ''/'' then p @ ''/'' @ q else p @ q)"

text \<open>
  \<^verbatim>\<open>path::parent_path\<close>: the path without its last element; the parent of an element
  directly under the root is the root, and the root and a single relative element have
  the empty parent.
\<close>

definition parent_path :: "path \<Rightarrow> path" where
  "parent_path p =
     (let q = rev (dropWhile (\<lambda>c. c \<noteq> CHR ''/'') (rev p));
          r = rev (dropWhile (\<lambda>c. c = CHR ''/'') (rev q))
      in if r = [] \<and> q \<noteq> p \<and> q \<noteq> [] then ''/'' else r)"

text \<open>A relative path is resolved against the current directory.\<close>

definition absolute :: "application \<Rightarrow> path \<Rightarrow> path" where
  "absolute s p = (if is_relative p then path_append (cwd s) p else p)"

definition exists :: "application \<Rightarrow> path \<Rightarrow> bool" where
  "exists s p = (p \<noteq> [] \<and> fs s (absolute s p) \<noteq> None)"

definition is_directory :: "application \<Rightarrow> path \<Rightarrow> bool" where
  "is_directory s p = (p \<noteq> [] \<and> fs s (absolute s p) = Some directory)"

text \<open>
  \<^verbatim>\<open>create_directory\<close>: nothing to do when the directory is there; fails when the
  path is empty, names a file, or its parent is not a directory.
\<close>

definition create_directory :: "path \<Rightarrow> application \<Rightarrow> exception + application" where
  "create_directory p s =
     (if p = [] then Inl (filesystem_error p)
      else case fs s (absolute s p) of
        Some directory \<Rightarrow> Inr s
      | Some (regular_file _) \<Rightarrow> Inl (filesystem_error p)
      | None \<Rightarrow>
          if fs s (parent_path (absolute s p)) = Some directory
          then Inr (s\<lparr>fs := (fs s)(absolute s p \<mapsto> directory)\<rparr>)
          else Inl (filesystem_error p))"

text \<open>
  \<^verbatim>\<open>create_directories\<close>: fails on the empty path; nothing to do when the directory is
  there; otherwise creates the missing parent first, then the directory itself.
\<close>

function create_directories :: "path \<Rightarrow> application \<Rightarrow> exception + application" where
  "create_directories p s =
     (if p = [] then Inl (filesystem_error p)
      else if is_directory s p then Inr s
      else if parent_path p \<noteq> [] \<and> \<not> exists s (parent_path p)
      then (case create_directories (parent_path p) s of
              Inl e \<Rightarrow> Inl e
            | Inr s1 \<Rightarrow> create_directory p s1)
      else create_directory p s)"
  by pat_completeness auto
termination
proof (relation "measure (\<lambda>(p, s). length p)")
  show "wf (measure (\<lambda>(p, s). length p))" by simp
next
  fix p :: path and s :: application
  assume ne: "p \<noteq> []"
  have shorter: "length (dropWhile P xs) < length xs"
    if "dropWhile P xs \<noteq> xs" for P and xs :: string
    using that by (cases xs) (auto simp: le_imp_less_Suc length_dropWhile_le split: if_splits)
  have shorter_hd: "length (dropWhile P xs) < length xs"
    if "xs \<noteq> []" and "P (hd xs)" for P and xs :: string
    using that by (cases xs) (auto simp: le_imp_less_Suc length_dropWhile_le)
  define q where "q = rev (dropWhile (\<lambda>c. c \<noteq> CHR ''/'') (rev p))"
  define r where "r = rev (dropWhile (\<lambda>c. c = CHR ''/'') (rev q))"
  have pp: "parent_path p = (if r = [] \<and> q \<noteq> p \<and> q \<noteq> [] then ''/'' else r)"
    unfolding parent_path_def q_def r_def Let_def by (rule refl)
  have q_le: "length q \<le> length p"
    unfolding q_def using length_dropWhile_le [of _ "rev p"] by simp
  have r_le: "length r \<le> length q"
    unfolding r_def using length_dropWhile_le [of _ "rev q"] by simp
  have "length (parent_path p) < length p"
  proof (cases "q = p")
    case True
    then have "dropWhile (\<lambda>c. c \<noteq> CHR ''/'') (rev p) = rev p"
      unfolding q_def by (simp add: rev_swap)
    then have "\<not> (hd (rev p) \<noteq> CHR ''/'')"
      using ne shorter_hd [of "rev p" "\<lambda>c. c \<noteq> CHR ''/''"] by auto
    then have "length (dropWhile (\<lambda>c. c = CHR ''/'') (rev p)) < length (rev p)"
      using ne shorter_hd [of "rev p" "\<lambda>c. c = CHR ''/''"] by simp
    then have "length r < length p" unfolding r_def True by simp
    then show ?thesis using pp True by simp
  next
    case False
    then have "dropWhile (\<lambda>c. c \<noteq> CHR ''/'') (rev p) \<noteq> rev p"
      unfolding q_def by (auto simp: rev_swap)
    then have q_lt: "length q < length p"
      unfolding q_def using shorter [of "\<lambda>c. c \<noteq> CHR ''/''" "rev p"] by simp
    show ?thesis
    proof (cases "r = [] \<and> q \<noteq> []")
      case True
      then have "1 \<le> length q" by (cases q) auto
      then show ?thesis using pp True False q_lt by simp
    next
      case False
      then show ?thesis using pp r_le q_lt by auto
    qed
  qed
  then show "((parent_path p, s), (p, s)) \<in> measure (\<lambda>(p, s). length p)" by simp
qed

declare create_directories.simps [simp del]

text \<open>
  Opening a \<^verbatim>\<open>std::ofstream\<close> succeeds when the path is not empty, does not name a
  directory and its parent is a directory; a stream that failed to open drops what is
  written to it, without an exception.
\<close>

definition ofstream_open :: "application \<Rightarrow> path \<Rightarrow> bool" where
  "ofstream_open s p =
     (p \<noteq> [] \<and> fs s (absolute s p) \<noteq> Some directory
      \<and> fs s (parent_path (absolute s p)) = Some directory)"

subsection \<open>write_default_config\<close>

text \<open>
  What one round of the loop over \<^verbatim>\<open>my->_cfg_options.options()\<close> writes.
  \<^verbatim>\<open>example.erase(0, 6)\<close> drops up to six characters; \<^verbatim>\<open>example.erase(example.length()-1)\<close>
  drops the last one, and throws \<^verbatim>\<open>std::out_of_range\<close> on the empty string, where the
  position wraps around.
\<close>

definition config_block :: "option_description \<Rightarrow> exception + string" where
  "config_block od =
     (let comment = (if description od \<noteq> [] then ''# '' @ description od @ [CHR 0x0A] else [])
      in if \<not> apply_default (semantic od)
         then Inr (comment @ ''# '' @ long_name od @ '' = '' @ [CHR 0x0A] @ [CHR 0x0A])
         else
           let example = format_parameter od
           in if example = []
              then Inr (comment @ long_name od @ '' = '' @ ''false'' @ [CHR 0x0A] @ [CHR 0x0A])
              else
                let example1 = drop 6 example
                in if example1 = [] then Inl out_of_range
                   else Inr (comment @ long_name od @ '' = '' @ butlast example1
                             @ [CHR 0x0A] @ [CHR 0x0A]))"

fun config_blocks :: "option_description list \<Rightarrow> exception + string" where
  "config_blocks [] = Inr []"
| "config_blocks (od # ods) =
     (case config_block od of
        Inl e \<Rightarrow> Inl e
      | Inr b \<Rightarrow> (case config_blocks ods of Inl e \<Rightarrow> Inl e | Inr bs \<Rightarrow> Inr (b @ bs)))"

text \<open>
  \<^verbatim>\<open>application::write_default_config\<close>: the parent directories, then the file. The
  text reaches the file when the stream is closed.
\<close>

definition write_default_config :: "path \<Rightarrow> application \<Rightarrow> exception + application" where
  "write_default_config cfg_file s =
     (case (if \<not> exists s (parent_path cfg_file)
            then create_directories (parent_path cfg_file) s else Inr s) of
        Inl e \<Rightarrow> Inl e
      | Inr s1 \<Rightarrow>
          (case config_blocks (m_options (my_cfg_options s1)) of
             Inl e \<Rightarrow> Inl e
           | Inr txt \<Rightarrow>
               Inr (if ofstream_open s1 cfg_file
                    then s1\<lparr>fs := (fs s1)(absolute s1 cfg_file \<mapsto> regular_file txt)\<rparr>
                    else s1)))"

subsection \<open>Parsed options, the variables map and bpo::store\<close>

text \<open>
  One option as a parser found it: its key, the tokens of its value, and whether the
  description does not know it.
\<close>

record parsed_option =
  string_key :: string
  tokens :: "string list"
  unregistered :: bool

text \<open>
  A \<^verbatim>\<open>variable_value\<close> (the value, \<open>None\<close> for the empty \<^verbatim>\<open>boost::any\<close>, and
  whether it came from a default) and the \<^verbatim>\<open>variables_map\<close> with the names whose
  value is final.
\<close>

record variable_value =
  var_value :: "any option"
  defaulted :: bool

record variables_map =
  m_map :: "string \<rightharpoonup> variable_value"
  m_final :: "string set"

definition empty_variables_map :: variables_map where
  "empty_variables_map = \<lparr>m_map = Map.empty, m_final = {}\<rparr>"

text \<open>\<^verbatim>\<open>options.count(key)\<close>.\<close>

definition vm_count :: "variables_map \<Rightarrow> string \<Rightarrow> nat" where
  "vm_count vm k = (case m_map vm k of None \<Rightarrow> 0 | Some _ \<Rightarrow> 1)"

text \<open>
  \<^verbatim>\<open>options[key].as<bfs::path>()\<close> and \<^verbatim>\<open>.as<std::vector<std::string>>()\<close>: a value of
  another type, or no value, throws \<^verbatim>\<open>boost::bad_any_cast\<close>.
\<close>

definition as_path :: "variables_map \<Rightarrow> string \<Rightarrow> exception + path" where
  "as_path vm k =
     (case m_map vm k of
        Some vv \<Rightarrow> (case var_value vv of Some (any_string t) \<Rightarrow> Inr t | _ \<Rightarrow> Inl bad_any_cast)
      | None \<Rightarrow> Inl bad_any_cast)"

definition as_strings :: "variables_map \<Rightarrow> string \<Rightarrow> exception + string list" where
  "as_strings vm k =
     (case m_map vm k of
        Some vv \<Rightarrow> (case var_value vv of Some (any_strings ts) \<Rightarrow> Inr ts | _ \<Rightarrow> Inl bad_any_cast)
      | None \<Rightarrow> Inl bad_any_cast)"

text \<open>The option of a description with a given long name (the first, if several).\<close>

definition find_option :: "options_description \<Rightarrow> string \<Rightarrow> option_description option" where
  "find_option desc k = find (\<lambda>d. long_name d = k) (m_options desc)"

text \<open>
  \<^verbatim>\<open>value_semantic::parse\<close>: a vector value grows by the new tokens; any other value
  may be given once, with one token (none for an option that takes no token).
\<close>

definition semantic_parse ::
  "value_semantic \<Rightarrow> string \<Rightarrow> any option \<Rightarrow> string list \<Rightarrow> exception + any" where
  "semantic_parse sem k value_store new_tokens =
     (if m_vector sem
      then Inr (any_strings ((case value_store of Some (any_strings xs) \<Rightarrow> xs | _ \<Rightarrow> [])
                              @ new_tokens))
      else if value_store \<noteq> None then Inl (multiple_occurrences k)
      else case new_tokens of
             [] \<Rightarrow> if m_zero_tokens sem then Inr (any_string []) else Inl (validation_error k)
           | [t] \<Rightarrow> Inr (any_string t)
           | _ \<Rightarrow> Inl (multiple_values k))"

text \<open>
  The first loop of \<^verbatim>\<open>bpo::store\<close>: every given option is converted and stored, except
  those without a name, those not registered and those whose value is final. An
  explicit value replaces a defaulted one. \<open>new_final\<close> collects the names that become
  final when the loop is over.
\<close>

fun store_options ::
  "parsed_option list \<Rightarrow> options_description \<Rightarrow> variables_map \<Rightarrow> string set
     \<Rightarrow> exception + (variables_map \<times> string set)" where
  "store_options [] desc vm new_final = Inr (vm, new_final)"
| "store_options (po # pos) desc vm new_final =
     (if string_key po = [] \<or> unregistered po \<or> string_key po \<in> m_final vm
      then store_options pos desc vm new_final
      else case find_option desc (string_key po) of
        None \<Rightarrow> Inl (unknown_option (string_key po))
      | Some d \<Rightarrow>
          let value_store =
                (case m_map vm (string_key po) of
                   None \<Rightarrow> None
                 | Some vv \<Rightarrow> if defaulted vv then None else var_value vv)
          in case semantic_parse (semantic d) (string_key po) value_store (tokens po) of
               Inl e \<Rightarrow> Inl e
             | Inr a \<Rightarrow>
                 store_options pos desc
                   (vm\<lparr>m_map := (m_map vm)(string_key po \<mapsto>
                                   \<lparr>var_value = Some a, defaulted = False\<rparr>)\<rparr>)
                   (if m_composing (semantic d) then new_final
                    else insert (string_key po) new_final))"

text \<open>The second loop: the default of every option that has one and no value yet.\<close>

fun apply_defaults ::
  "option_description list \<Rightarrow> (string \<rightharpoonup> variable_value) \<Rightarrow> (string \<rightharpoonup> variable_value)" where
  "apply_defaults [] m = m"
| "apply_defaults (d # ds) m =
     (if long_name d \<noteq> [] \<and> m (long_name d) = None \<and> apply_default (semantic d)
      then apply_defaults ds
             (m(long_name d \<mapsto> \<lparr>var_value = m_default_value (semantic d), defaulted = True\<rparr>))
      else apply_defaults ds m)"

definition store ::
  "parsed_option list \<Rightarrow> options_description \<Rightarrow> variables_map \<Rightarrow> exception + variables_map" where
  "store parsed desc vm =
     (case store_options parsed desc vm {} of
        Inl e \<Rightarrow> Inl e
      | Inr (vm1, new_final) \<Rightarrow>
          Inr (vm1\<lparr>m_final := m_final vm1 \<union> new_final,
                   m_map := apply_defaults (m_options desc) (m_map vm1)\<rparr>))"

subsection \<open>The command line and the configuration file\<close>

text \<open>
  The grammar of the command line is the library's. The command line is given as the
  options that occur on it, each with its long name and the tokens of its value;
  \<^verbatim>\<open>parse_command_line\<close> throws on a name the description does not know.
\<close>

type_synonym command_line = "(string \<times> string list) list"

definition parse_command_line ::
  "command_line \<Rightarrow> options_description \<Rightarrow> exception + parsed_option list" where
  "parse_command_line cl desc =
     (case find (\<lambda>kv. find_option desc (fst kv) = None) cl of
        Some kv \<Rightarrow> Inl (unknown_option (fst kv))
      | None \<Rightarrow>
          Inr (map (\<lambda>kv. \<lparr>string_key = fst kv, tokens = snd kv, unregistered = False\<rparr>) cl))"

text \<open>Splitting at every character of a class; empty pieces are kept.\<close>

fun split_on :: "(char \<Rightarrow> bool) \<Rightarrow> string \<Rightarrow> string list" where
  "split_on P [] = [[]]"
| "split_on P (c # cs) =
     (if P c then [] # split_on P cs
      else (case split_on P cs of t # ts \<Rightarrow> (c # t) # ts | [] \<Rightarrow> [[c]]))"

definition is_ws :: "char \<Rightarrow> bool" where
  "is_ws c = (c = CHR '' '' \<or> c = CHR 0x09 \<or> c = CHR 0x0D \<or> c = CHR 0x0A)"

definition trim_ws :: "string \<Rightarrow> string" where
  "trim_ws s = rev (dropWhile is_ws (rev (dropWhile is_ws s)))"

text \<open>
  The configuration file parser, line by line: a \<^verbatim>\<open>#\<close> starts a comment, white space
  around the rest is dropped, an empty rest is skipped, \<^verbatim>\<open>[section]\<close> sets the prefix
  of the names that follow (reading the last character of an empty section name is
  undefined), \<^verbatim>\<open>name = value\<close> is an option, any other line is a syntax error.
  Unregistered names are allowed (the last argument of \<^verbatim>\<open>parse_config_file\<close> here is
  \<^verbatim>\<open>true\<close>) and marked.
\<close>

fun parse_config_lines ::
  "options_description \<Rightarrow> string \<Rightarrow> string list \<Rightarrow> exception + parsed_option list" where
  "parse_config_lines desc m_prefix [] = Inr []"
| "parse_config_lines desc m_prefix (l # ls) =
     (let s = trim_ws (takeWhile (\<lambda>c. c \<noteq> CHR ''#'') l)
      in if s = [] then parse_config_lines desc m_prefix ls
         else if hd s = CHR ''['' \<and> last s = CHR '']''
         then (let sect = butlast (tl s)
               in if sect = [] then Inl undefined_behaviour
                  else parse_config_lines desc
                         (if last sect \<noteq> CHR ''.'' then sect @ ''.'' else sect) ls)
         else if CHR ''='' \<in> set s
         then (let k = m_prefix @ trim_ws (takeWhile (\<lambda>c. c \<noteq> CHR ''='') s);
                   v = trim_ws (tl (dropWhile (\<lambda>c. c \<noteq> CHR ''='') s))
               in case parse_config_lines desc m_prefix ls of
                    Inl e \<Rightarrow> Inl e
                  | Inr pos \<Rightarrow>
                      Inr (\<lparr>string_key = k, tokens = [v],
                            unregistered = (find_option desc k = None)\<rparr> # pos))
         else Inl (invalid_config_file_syntax s))"

text \<open>
  \<^verbatim>\<open>parse_config_file(filename, desc, true)\<close>: throws when the file cannot be opened for
  reading.
\<close>

definition parse_config_file ::
  "path \<Rightarrow> options_description \<Rightarrow> application \<Rightarrow> exception + parsed_option list" where
  "parse_config_file p desc s =
     (case fs s (absolute s p) of
        Some (regular_file txt) \<Rightarrow> parse_config_lines desc [] (split_on (\<lambda>c. c = CHR 0x0A) txt)
      | _ \<Rightarrow> Inl (reading_file p))"

subsection \<open>set_program_options\<close>

text \<open>The options \<^verbatim>\<open>set_program_options\<close> declares for the application itself.\<close>

definition untyped_value :: value_semantic where
  "untyped_value =
     \<lparr>m_default_value = None, m_default_value_as_text = [], m_zero_tokens = True,
      m_composing = False, m_vector = False\<rparr>"

definition path_value :: "string \<Rightarrow> value_semantic" where
  "path_value dflt =
     \<lparr>m_default_value = Some (any_string dflt),
      m_default_value_as_text = [CHR 0x22] @ dflt @ [CHR 0x22],
      m_zero_tokens = False, m_composing = False, m_vector = False\<rparr>"

definition plugin_option :: option_description where
  "plugin_option =
     \<lparr>long_name = ''plugin'',
      description = ''Plugin(s) to enable, may be specified multiple times'',
      semantic = \<lparr>m_default_value = None, m_default_value_as_text = [],
                  m_zero_tokens = False, m_composing = True, m_vector = True\<rparr>\<rparr>"

definition help_option :: option_description where
  "help_option =
     \<lparr>long_name = ''help'', description = ''Print this help message and exit.'',
      semantic = untyped_value\<rparr>"

definition version_option :: option_description where
  "version_option =
     \<lparr>long_name = ''version'', description = ''Print version information.'',
      semantic = untyped_value\<rparr>"

definition data_dir_option :: option_description where
  "data_dir_option =
     \<lparr>long_name = ''data-dir'',
      description = ''Directory containing configuration file config.ini'',
      semantic = path_value ''data-dir''\<rparr>"

definition config_option :: option_description where
  "config_option =
     \<lparr>long_name = ''config'',
      description = ''Configuration file name relative to data-dir'',
      semantic = path_value ''config.ini''\<rparr>"

text \<open>
  The loop over the registered plugins. Modelled from the spec:
  \<^verbatim>\<open>abstract_plugin::set_program_options\<close>, not among the sources, adds the options the
  plugin declares to the two descriptions it is handed.
\<close>

fun set_program_options_loop ::
  "(string \<times> addr) list \<Rightarrow> application \<Rightarrow> exception + application" where
  "set_program_options_loop [] s = Inr s"
| "set_program_options_loop (plug # plugs) s =
     (case heap s (snd plug) of
        None \<Rightarrow> Inl undefined_behaviour
      | Some pl \<Rightarrow>
          let plugin_cli_opts =
                (new_options_description (''Command Line Options for '' @ name pl))
                  \<lparr>m_options := cli_opts pl\<rparr>;
              plugin_cfg_opts =
                (new_options_description (''Config Options for '' @ name pl))
                  \<lparr>m_options := cfg_opts pl\<rparr>;
              s1 = (if length (m_options plugin_cfg_opts) \<noteq> 0
                    then s\<lparr>my_app_options := add (my_app_options s) plugin_cfg_opts,
                           my_cfg_options := add (my_cfg_options s) plugin_cfg_opts\<rparr>
                    else s);
              s2 = (if length (m_options plugin_cli_opts) \<noteq> 0
                    then s1\<lparr>my_app_options := add (my_app_options s1) plugin_cli_opts\<rparr>
                    else s1)
          in set_program_options_loop plugs s2)"

definition set_program_options :: "application \<Rightarrow> exception + application" where
  "set_program_options s =
     (case set_program_options_loop (plugins s) s of
        Inl e \<Rightarrow> Inl e
      | Inr s1 \<Rightarrow>
          let app_cfg_opts =
                add_option (new_options_description ''Application Config Options'')
                  plugin_option;
              app_cli_opts =
                add_option (add_option (add_option (add_option
                  (new_options_description ''Application Command Line Options'')
                  help_option) version_option) data_dir_option) config_option
          in Inr (s1\<lparr>my_cfg_options := add (my_cfg_options s1) app_cfg_opts,
                     my_app_options := add (add (my_app_options s1) app_cfg_opts) app_cli_opts\<rparr>))"

subsection \<open>initialize_impl\<close>

text \<open>Lines 88 to 94: the data directory.\<close>

definition resolve_data_dir :: "variables_map \<Rightarrow> application \<Rightarrow> exception + path" where
  "resolve_data_dir options s =
     (if vm_count options ''data-dir'' \<noteq> 0
      then (case as_path options ''data-dir'' of
              Inl e \<Rightarrow> Inl e
            | Inr data_dir \<Rightarrow>
                Inr (if is_relative data_dir then path_append (cwd s) data_dir else data_dir))
      else Inr ''data-dir'')"

text \<open>
  Lines 97 to 102: the name of the configuration file. The block of the \<^verbatim>\<open>if\<close>
  declares a variable \<^verbatim>\<open>config_file_name\<close> of its own, which the code assigns and
  which ends with the block; the outer variable keeps its value.
\<close>

definition resolve_config_file_name :: "variables_map \<Rightarrow> path \<Rightarrow> exception + path" where
  "resolve_config_file_name options data_dir =
     (let config_file_name = path_append data_dir ''config.ini''
      in if vm_count options ''config'' \<noteq> 0
         then (case as_path options ''config'' of
                 Inl e \<Rightarrow> Inl e
               | Inr inner_config_file_name \<Rightarrow>
                   let inner_config_file_name =
                         (if is_relative inner_config_file_name
                          then path_append data_dir inner_config_file_name
                          else inner_config_file_name)
                   in Inr config_file_name)
         else Inr config_file_name)"

text \<open>Lines 113 to 120: the plugins named by the \<^verbatim>\<open>plugin\<close> option.\<close>

fun initialize_names :: "string list \<Rightarrow> application \<Rightarrow> exception + application" where
  "initialize_names [] s = Inr s"
| "initialize_names (n # ns) s =
     (case get_plugin s n of
        Inl e \<Rightarrow> Inl e
      | Inr p \<Rightarrow>
          (case plugin_initialize p s of
             Inl e \<Rightarrow> Inl e
           | Inr s1 \<Rightarrow> initialize_names ns s1))"

definition is_any_of :: "string \<Rightarrow> char \<Rightarrow> bool" where
  "is_any_of cs c = (c \<in> set cs)"

fun initialize_args :: "string list \<Rightarrow> application \<Rightarrow> exception + application" where
  "initialize_args [] s = Inr s"
| "initialize_args (arg # args) s =
     (case initialize_names (split_on (is_any_of [CHR '' '', CHR 0x09, CHR '','']) arg) s of
        Inl e \<Rightarrow> Inl e
      | Inr s1 \<Rightarrow> initialize_args args s1)"

text \<open>Lines 122 to 124: the autostart plugins.\<close>

fun initialize_autostart :: "addr option list \<Rightarrow> application \<Rightarrow> exception + application" where
  "initialize_autostart [] s = Inr s"
| "initialize_autostart (None # ps) s = initialize_autostart ps s"
| "initialize_autostart (Some p # ps) s =
     (case heap s p of
        None \<Rightarrow> Inl undefined_behaviour
      | Some pl \<Rightarrow>
          if get_state pl = registered
          then (case plugin_initialize p s of
                  Inl e \<Rightarrow> Inl e
                | Inr s1 \<Rightarrow> initialize_autostart ps s1)
          else initialize_autostart ps s)"

text \<open>
  Lines 88 to 128, what \<^verbatim>\<open>initialize_impl\<close> does once the help option is known to be
  absent. No option of the model carries a notifier or is required, so
  \<^verbatim>\<open>bpo::notify\<close> has nothing to do.
\<close>

definition initialize_rest ::
  "variables_map \<Rightarrow> addr option list \<Rightarrow> application \<Rightarrow> exception + (bool \<times> application)" where
  "initialize_rest options autostart_plugins s =
     (case resolve_data_dir options s of
        Inl e \<Rightarrow> Inl e
      | Inr data_dir \<Rightarrow>
     (case resolve_config_file_name options data_dir of
        Inl e \<Rightarrow> Inl e
      | Inr config_file_name \<Rightarrow>
     (case (if \<not> exists (s\<lparr>my_data_dir := data_dir\<rparr>) config_file_name
            then write_default_config config_file_name (s\<lparr>my_data_dir := data_dir\<rparr>)
            else Inr (s\<lparr>my_data_dir := data_dir\<rparr>)) of
        Inl e \<Rightarrow> Inl e
      | Inr s1 \<Rightarrow>
     (case parse_config_file config_file_name (my_cfg_options s1) s1 of
        Inl e \<Rightarrow> Inl e
      | Inr parsed \<Rightarrow>
     (case store parsed (my_cfg_options s1) options of
        Inl e \<Rightarrow> Inl e
      | Inr options1 \<Rightarrow>
     (case (if vm_count options1 ''plugin'' > 0
            then (case as_strings options1 ''plugin'' of
                    Inl e \<Rightarrow> Inl e
                  | Inr args \<Rightarrow> initialize_args args s1)
            else Inr s1) of
        Inl e \<Rightarrow> Inl e
      | Inr s2 \<Rightarrow>
     (case initialize_autostart autostart_plugins s2 of
        Inl e \<Rightarrow> Inl e
      | Inr s3 \<Rightarrow> Inr (True, s3))))))))"

text \<open>\<^verbatim>\<open>application::initialize_impl\<close>.\<close>

definition initialize_impl ::
  "command_line \<Rightarrow> addr option list \<Rightarrow> application \<Rightarrow> exception + (bool \<times> application)" where
  "initialize_impl argv autostart_plugins s =
     (case set_program_options s of
        Inl e \<Rightarrow> Inl e
      | Inr s1 \<Rightarrow>
     (case parse_command_line argv (my_app_options s1) of
        Inl e \<Rightarrow> Inl e
      | Inr parsed \<Rightarrow>
     (case store parsed (my_app_options s1) empty_variables_map of
        Inl e \<Rightarrow> Inl e
      | Inr options \<Rightarrow>
          if vm_count options ''help'' \<noteq> 0
          then Inr (False, s1\<lparr>cout := cout s1 @ [out_options_description (my_app_options s1),
                                                    out_string [CHR 0x0A]]\<rparr>)
          else initialize_rest options autostart_plugins s1)))"

section \<open>Notions used to state the properties\<close>

text \<open>
  A plugin pointer is registered here when it points to a live plugin that the registry
  owns under the plugin's own name.
\<close>

definition registered_here :: "application \<Rightarrow> addr \<Rightarrow> bool" where
  "registered_here s p =
     (case heap s p of None \<Rightarrow> False | Some pl \<Rightarrow> map_of (plugins s) (name pl) = Some p)"

text \<open>The state of the plugin a pointer points to, if it is alive.\<close>

definition state_of :: "application \<Rightarrow> addr \<Rightarrow> state option" where
  "state_of s p = map_option get_state (heap s p)"

text \<open>
  The entry of one option in the default configuration file, in the words of the
  specification, with the commented-out assignment for an option without a default:
  the description as a comment line unless it is empty; then the assignment of the
  default rendered as text, of \<^verbatim>\<open>false\<close> for an option that takes no token, or the
  commented-out assignment; then an empty line.
\<close>

definition comment_line :: "option_description \<Rightarrow> string" where
  "comment_line od =
     (if description od = [] then [] else ''# '' @ description od @ [CHR 0x0A])"






section \<open>Example applications\<close>

definition example_port_option :: option_description where
  "example_port_option =
     \<lparr>long_name = ''a-port'', description = ''The port'',
      semantic = \<lparr>m_default_value = Some (any_string ''8080''),
                  m_default_value_as_text = ''8080'',
                  m_zero_tokens = False, m_composing = False, m_vector = False\<rparr>\<rparr>"

definition example_switch_option :: option_description where
  "example_switch_option =
     \<lparr>long_name = ''a-verbose'', description = [],
      semantic = \<lparr>m_default_value = Some (any_string ''0''),
                  m_default_value_as_text = ''0'',
                  m_zero_tokens = True, m_composing = False, m_vector = False\<rparr>\<rparr>"

definition example_key_option :: option_description where
  "example_key_option =
     \<lparr>long_name = ''b-key'', description = ''The key'',
      semantic = \<lparr>m_default_value = None, m_default_value_as_text = [],
                  m_zero_tokens = False, m_composing = False, m_vector = False\<rparr>\<rparr>"

definition example_plugin_A :: abstract_plugin where
  "example_plugin_A =
     \<lparr>name = ''A'', get_state = registered, cli_opts = [],
      cfg_opts = [example_port_option, example_switch_option]\<rparr>"

definition example_plugin_B :: abstract_plugin where
  "example_plugin_B =
     \<lparr>name = ''B'', get_state = registered, cli_opts = [],
      cfg_opts = [example_key_option]\<rparr>"

text \<open>
  Two registered plugins, nothing initialized, the current directory \<^verbatim>\<open>/home\<close> and no
  data directory yet.
\<close>

definition example_app :: application where
  "example_app =
     \<lparr>plugins = [(''A'', 1), (''B'', 2)], initialized_plugins = [], running_plugins = [],
      my_app_options = new_options_description ''Application Options'',
      my_cfg_options = new_options_description [],
      my_data_dir = [],
      heap = [1 \<mapsto> example_plugin_A, 2 \<mapsto> example_plugin_B],
      fs = [''/'' \<mapsto> directory, ''/home'' \<mapsto> directory],
      cwd = ''/home'', cout = [], calls = []\<rparr>"

text \<open>The same application with both plugins initialized, and with both started.\<close>

definition example_initialized :: application where
  "example_initialized =
     example_app
       \<lparr>initialized_plugins := [1, 2],
        heap := [1 \<mapsto> example_plugin_A\<lparr>get_state := initialized\<rparr>,
                 2 \<mapsto> example_plugin_B\<lparr>get_state := initialized\<rparr>]\<rparr>"

definition example_running :: application where
  "example_running =
     example_app
       \<lparr>initialized_plugins := [1, 2], running_plugins := [1, 2],
        heap := [1 \<mapsto> example_plugin_A\<lparr>get_state := started\<rparr>,
                 2 \<mapsto> example_plugin_B\<lparr>get_state := started\<rparr>]\<rparr>"

text \<open>The example with plugin B initialized already and plugin A not yet.\<close>

definition example_mixed :: application where
  "example_mixed =
     example_app
       \<lparr>initialized_plugins := [2],
        heap := [1 \<mapsto> example_plugin_A,
                 2 \<mapsto> example_plugin_B\<lparr>get_state := initialized\<rparr>]\<rparr>"


text \<open>
  The example with a data directory that holds a configuration file \<^verbatim>\<open>my.ini\<close>
  enabling plugin A, and no \<^verbatim>\<open>config.ini\<close>.
\<close>

definition example_my_ini :: application where
  "example_my_ini =
     example_app
       \<lparr>fs := [''/'' \<mapsto> directory, ''/home'' \<mapsto> directory,
               ''/home/data-dir'' \<mapsto> directory,
               ''/home/data-dir/my.ini'' \<mapsto> regular_file ''plugin = A\<newline>'']\<rparr>"

text \<open>
  An application whose only plugin declares a configuration option without a default
  and with a description of two lines, the second of which gives an example; and one
  whose plugin's description has an ordinary second line.
\<close>

definition example_described_option :: option_description where
  "example_described_option =
     \<lparr>long_name = ''b-key'', description = ''The key, for example:\<newline>b-key = 5'',
      semantic = \<lparr>m_default_value = None, m_default_value_as_text = [],
                  m_zero_tokens = False, m_composing = False, m_vector = False\<rparr>\<rparr>"

definition example_described :: application where
  "example_described =
     example_app
       \<lparr>plugins := [(''D'', 3)],
        heap := [3 \<mapsto> \<lparr>name = ''D'', get_state = registered, cli_opts = [],
                          cfg_opts = [example_described_option]\<rparr>]\<rparr>"

definition example_two_lines :: application where
  "example_two_lines =
     example_app
       \<lparr>plugins := [(''E'', 4)],
        heap := [4 \<mapsto> \<lparr>name = ''E'', get_state = registered, cli_opts = [],
                          cfg_opts = [example_described_option
                                        \<lparr>description := ''The key\<newline>see the manual''\<rparr>]\<rparr>]\<rparr>"


section \<open>The lifecycle loops\<close>

lemma map_of_filter_key:
  "map_of (filter (\<lambda>e. fst e \<noteq> k) xs) k' = (if k' = k then None else map_of xs k')"
  by (induction xs) auto

lemma plugin_startup_live:
  assumes "heap s p = Some pl"
  shows "\<exists>s'. plugin_startup p s = Inr s' \<and> calls s' = calls s @ [call_startup p]
           \<and> plugins s' = plugins s
           \<and> (\<forall>q. q \<noteq> p \<longrightarrow> heap s' q = heap s q)
           \<and> (\<exists>pl'. heap s' p = Some pl' \<and> name pl' = name pl)
           \<and> running_plugins s' =
               running_plugins s @ (if get_state pl = initialized then [p] else [])"
  using assms by (simp add: plugin_startup_def Let_def)

lemma startup_loop_calls:
  assumes "\<forall>p\<in>set ps. heap s p \<noteq> None"
  shows "\<exists>s'. startup_loop ps s = Inr s' \<and> calls s' = calls s @ map call_startup ps"
  using assms
proof (induction ps arbitrary: s)
  case Nil
  then show ?case by simp
next
  case (Cons p ps)
  then obtain pl where pl: "heap s p = Some pl" by auto
  from plugin_startup_live [OF pl] obtain s1 where
    s1: "plugin_startup p s = Inr s1" "calls s1 = calls s @ [call_startup p]"
        "\<forall>q. q \<noteq> p \<longrightarrow> heap s1 q = heap s q" "\<exists>pl'. heap s1 p = Some pl' \<and> name pl' = name pl"
    by blast
  have "\<forall>q\<in>set ps. heap s1 q \<noteq> None"
  proof
    fix q assume "q \<in> set ps"
    then have "heap s q \<noteq> None" using Cons.prems by simp
    then show "heap s1 q \<noteq> None" using s1(3,4) by (cases "q = p") auto
  qed
  from Cons.IH [OF this] obtain s' where
    "startup_loop ps s1 = Inr s'" "calls s' = calls s1 @ map call_startup ps" by blast
  then show ?case using s1(1,2) by simp
qed

lemma startup_loop_running:
  assumes "distinct ps"
      and "\<forall>p\<in>set ps. registered_here s p \<and> state_of s p = Some initialized"
  shows "\<exists>s'. startup_loop ps s = Inr s' \<and> running_plugins s' = running_plugins s @ ps
           \<and> plugins s' = plugins s
           \<and> (\<forall>p\<in>set (running_plugins s @ ps). registered_here s p \<longrightarrow> registered_here s' p)"
  using assms
proof (induction ps arbitrary: s)
  case Nil
  then show ?case by simp
next
  case (Cons p ps)
  then obtain pl where pl: "heap s p = Some pl" "get_state pl = initialized"
    by (auto simp: state_of_def registered_here_def split: option.splits)
  from plugin_startup_live [OF pl(1)] pl(2) obtain s1 where
    s1: "plugin_startup p s = Inr s1"
        "plugins s1 = plugins s"
        "\<forall>q. q \<noteq> p \<longrightarrow> heap s1 q = heap s q"
        "\<exists>pl'. heap s1 p = Some pl' \<and> name pl' = name pl"
        "running_plugins s1 = running_plugins s @ [p]"
    by auto
  have keep: "registered_here s q \<Longrightarrow> registered_here s1 q" for q
    using s1(2,3,4) pl(1) by (cases "q = p") (auto simp: registered_here_def split: option.splits)
  have "\<forall>q\<in>set ps. registered_here s1 q \<and> state_of s1 q = Some initialized"
  proof
    fix q assume q: "q \<in> set ps"
    then have "q \<noteq> p" using Cons.prems(1) by auto
    then show "registered_here s1 q \<and> state_of s1 q = Some initialized"
      using q Cons.prems(2) s1(3) keep by (simp add: state_of_def)
  qed
  moreover have "distinct ps" using Cons.prems(1) by simp
  ultimately obtain s' where
    s': "startup_loop ps s1 = Inr s'" "running_plugins s' = running_plugins s1 @ ps"
        "plugins s' = plugins s1"
        "\<forall>q\<in>set (running_plugins s1 @ ps). registered_here s1 q \<longrightarrow> registered_here s' q"
    using Cons.IH [of s1] by blast
  show ?case using s1(1,2,5) s' keep by auto
qed

lemma shutdown_loop_calls:
  assumes "\<forall>p\<in>set ps. heap s p \<noteq> None"
  shows "shutdown_loop ps s = Inr (s\<lparr>calls := calls s @ map call_shutdown ps\<rparr>)"
  using assms
proof (induction ps arbitrary: s)
  case Nil
  then show ?case by simp
next
  case (Cons p ps)
  then obtain pl where pl: "heap s p = Some pl" by auto
  have step: "plugin_shutdown p s = Inr (s\<lparr>calls := calls s @ [call_shutdown p]\<rparr>)"
    using pl by (simp add: plugin_shutdown_def)
  have "\<forall>q\<in>set ps. heap (s\<lparr>calls := calls s @ [call_shutdown p]\<rparr>) q \<noteq> None"
    using Cons.prems by simp
  from Cons.IH [OF this] show ?case using step by simp
qed

lemma erase_loop_ok:
  assumes "distinct ps" and "\<forall>p\<in>set ps. registered_here s p"
  shows "\<exists>s'. erase_loop ps s = Inr s' \<and> calls s' = calls s
           \<and> running_plugins s' = running_plugins s
           \<and> initialized_plugins s' = initialized_plugins s"
  using assms
proof (induction ps arbitrary: s)
  case Nil
  then show ?case by simp
next
  case (Cons p ps)
  then obtain pl where pl: "heap s p = Some pl" "map_of (plugins s) (name pl) = Some p"
    by (auto simp: registered_here_def split: option.splits)
  let ?s1 = "erase (name pl) s"
  have s1: "?s1 = s\<lparr>plugins := filter (\<lambda>e. fst e \<noteq> name pl) (plugins s),
                      heap := (heap s)(p := None)\<rparr>"
    using pl(2) by (simp add: erase_def)
  have "\<forall>q\<in>set ps. registered_here ?s1 q"
  proof
    fix q assume q: "q \<in> set ps"
    then have ne: "q \<noteq> p" using Cons.prems(1) by auto
    from q Cons.prems(2) obtain ql where
      ql: "heap s q = Some ql" "map_of (plugins s) (name ql) = Some q"
      by (auto simp: registered_here_def split: option.splits)
    have "name ql \<noteq> name pl" using ql(2) pl(2) ne by auto
    then have "map_of (filter (\<lambda>e. fst e \<noteq> name pl) (plugins s)) (name ql) = Some q"
      using ql(2) by (simp add: map_of_filter_key)
    then show "registered_here ?s1 q" using ql(1) ne by (simp add: s1 registered_here_def)
  qed
  moreover have "distinct ps" using Cons.prems(1) by simp
  ultimately obtain s' where
    "erase_loop ps ?s1 = Inr s'" "calls s' = calls ?s1"
    "running_plugins s' = running_plugins ?s1" "initialized_plugins s' = initialized_plugins ?s1"
    using Cons.IH [of ?s1] by blast
  then show ?case using pl(1) by (simp add: s1)
qed

lemma shutdown_calls:
  assumes "distinct (running_plugins s)" and "\<forall>p\<in>set (running_plugins s). registered_here s p"
  shows "\<exists>s'. shutdown s = Inr s' \<and> calls s' = calls s @ map call_shutdown (rev (running_plugins s))"
proof -
  let ?s1 = "s\<lparr>calls := calls s @ map call_shutdown (rev (running_plugins s))\<rparr>"
  have live: "\<forall>p\<in>set (rev (running_plugins s)). heap s p \<noteq> None"
    using assms(2) by (auto simp: registered_here_def split: option.splits)
  have l1: "shutdown_loop (rev (running_plugins s)) s = Inr ?s1"
    by (rule shutdown_loop_calls [OF live])
  have "distinct (rev (running_plugins ?s1))" using assms(1) by simp
  moreover have "\<forall>p\<in>set (rev (running_plugins ?s1)). registered_here ?s1 p"
    using assms(2) by (auto simp: registered_here_def split: option.splits)
  ultimately obtain s2 where
    s2: "erase_loop (rev (running_plugins ?s1)) ?s1 = Inr s2" "calls s2 = calls ?s1"
    using erase_loop_ok [of "rev (running_plugins ?s1)" ?s1] by blast
  show ?thesis using l1 s2 by (simp add: shutdown_def clear_plugins_def)
qed

text \<open>
  Claim C1. \<^verbatim>\<open>startup\<close> invokes the startup member of the plugins in exactly the order
  of \<open>initialized_plugins\<close>, whenever those pointers are alive. \<^verbatim>\<open>shutdown\<close> invokes the
  shutdown member of the plugins of \<open>running_plugins\<close> in exactly the reverse order,
  whenever the running plugins are distinct and registered. From a state where nothing
  runs and the initialized plugins are distinct, registered and in the state
  \<open>initialized\<close>, startup leaves \<open>running_plugins\<close> equal to \<open>initialized_plugins\<close>, and
  a following shutdown visits them in the reverse of the startup order.
\<close>

theorem startup_shutdown_order:
  "((\<forall>p\<in>set (initialized_plugins s). heap s p \<noteq> None) \<longrightarrow>
      (\<exists>s'. startup s = Inr s' \<and>
            calls s' = calls s @ map call_startup (initialized_plugins s)))
   \<and> (distinct (running_plugins s) \<and> (\<forall>p\<in>set (running_plugins s). registered_here s p) \<longrightarrow>
      (\<exists>s'. shutdown s = Inr s' \<and>
            calls s' = calls s @ map call_shutdown (rev (running_plugins s))))
   \<and> (running_plugins s = [] \<and> distinct (initialized_plugins s) \<and>
       (\<forall>p\<in>set (initialized_plugins s).
          registered_here s p \<and> state_of s p = Some initialized) \<longrightarrow>
      (\<exists>s1 s2. startup s = Inr s1 \<and> running_plugins s1 = initialized_plugins s \<and>
          shutdown s1 = Inr s2 \<and>
          calls s2 = calls s @ map call_startup (initialized_plugins s)
                             @ map call_shutdown (rev (initialized_plugins s))))"
proof (intro conjI impI)
  assume "\<forall>p\<in>set (initialized_plugins s). heap s p \<noteq> None"
  then show "\<exists>s'. startup s = Inr s' \<and>
            calls s' = calls s @ map call_startup (initialized_plugins s)"
    unfolding startup_def by (rule startup_loop_calls)
next
  assume "distinct (running_plugins s) \<and> (\<forall>p\<in>set (running_plugins s). registered_here s p)"
  then show "\<exists>s'. shutdown s = Inr s' \<and>
            calls s' = calls s @ map call_shutdown (rev (running_plugins s))"
    using shutdown_calls by blast
next
  assume a: "running_plugins s = [] \<and> distinct (initialized_plugins s) \<and>
       (\<forall>p\<in>set (initialized_plugins s).
          registered_here s p \<and> state_of s p = Some initialized)"
  then have live: "\<forall>p\<in>set (initialized_plugins s). heap s p \<noteq> None"
    by (auto simp: registered_here_def split: option.splits)
  from startup_loop_running [of "initialized_plugins s" s] a obtain s1 where
    s1: "startup_loop (initialized_plugins s) s = Inr s1"
        "running_plugins s1 = initialized_plugins s"
        "\<forall>p\<in>set (initialized_plugins s). registered_here s1 p"
    by auto
  from startup_loop_calls [OF live] s1(1)
  have c1: "calls s1 = calls s @ map call_startup (initialized_plugins s)" by auto
  from shutdown_calls [of s1] s1(2,3) a obtain s2 where
    "shutdown s1 = Inr s2" "calls s2 = calls s1 @ map call_shutdown (rev (running_plugins s1))"
    by auto
  then show "\<exists>s1 s2. startup s = Inr s1 \<and> running_plugins s1 = initialized_plugins s \<and>
          shutdown s1 = Inr s2 \<and>
          calls s2 = calls s @ map call_startup (initialized_plugins s)
                             @ map call_shutdown (rev (initialized_plugins s))"
    using s1(1,2) c1 by (simp add: startup_def)
qed

theorem startup_shutdown_order_witness:
  "(\<exists>s'. startup example_initialized = Inr s' \<and> calls s' = [call_startup 1, call_startup 2])
   \<and> (\<exists>s'. shutdown example_running = Inr s' \<and> calls s' = [call_shutdown 2, call_shutdown 1])
   \<and> (\<exists>s1 s2. startup example_initialized = Inr s1 \<and> running_plugins s1 = [1, 2] \<and>
         shutdown s1 = Inr s2 \<and>
         calls s2 = [call_startup 1, call_startup 2, call_shutdown 2, call_shutdown 1])"
proof -
  have h1: "\<forall>p\<in>set (initialized_plugins example_initialized). heap example_initialized p \<noteq> None"
    by (simp add: example_initialized_def example_app_def)
  have h2: "distinct (running_plugins example_running) \<and>
            (\<forall>p\<in>set (running_plugins example_running). registered_here example_running p)"
    by (simp add: example_running_def example_app_def registered_here_def
          example_plugin_A_def example_plugin_B_def)
  have h3: "running_plugins example_initialized = [] \<and>
            distinct (initialized_plugins example_initialized) \<and>
            (\<forall>p\<in>set (initialized_plugins example_initialized).
               registered_here example_initialized p \<and>
               state_of example_initialized p = Some initialized)"
    by (simp add: example_initialized_def example_app_def registered_here_def state_of_def
          example_plugin_A_def example_plugin_B_def)
  have c: "calls example_initialized = [] \<and> calls example_running = [] \<and>
           initialized_plugins example_initialized = [1, 2] \<and>
           running_plugins example_running = [1, 2]"
    by (simp add: example_initialized_def example_running_def example_app_def)
  from startup_shutdown_order [of example_initialized] h1 h3
       startup_shutdown_order [of example_running] h2 c
  show ?thesis by simp
qed

section \<open>Shutting down twice\<close>

text \<open>
  Claim C2. After a call of \<^verbatim>\<open>shutdown\<close> that returns, \<open>running_plugins\<close>,
  \<open>initialized_plugins\<close> and the registry are empty, and a second call returns the very
  same state: it invokes no plugin (the log of calls is part of the state) and changes
  nothing.
\<close>

theorem shutdown_twice:
  assumes "shutdown s = Inr s'"
  shows "running_plugins s' = [] \<and> initialized_plugins s' = [] \<and> plugins s' = []
         \<and> shutdown s' = Inr s'"
proof -
  from assms obtain s2 where
    s': "s' = clear_plugins (s2\<lparr>running_plugins := [], initialized_plugins := []\<rparr>)"
    by (auto simp: shutdown_def split: sum.splits)
  have empty: "running_plugins s' = [] \<and> initialized_plugins s' = [] \<and> plugins s' = []"
    by (simp add: s' clear_plugins_def)
  then have "shutdown s' = Inr (clear_plugins (s'\<lparr>running_plugins := [], initialized_plugins := []\<rparr>))"
    by (simp add: shutdown_def)
  also have "clear_plugins (s'\<lparr>running_plugins := [], initialized_plugins := []\<rparr>) = s'"
    using empty by (simp add: clear_plugins_def)
  finally show ?thesis using empty by simp
qed

theorem shutdown_twice_witness:
  "\<exists>s'. shutdown example_running = Inr s' \<and> running_plugins s' = [] \<and>
        initialized_plugins s' = [] \<and> plugins s' = [] \<and> shutdown s' = Inr s' \<and>
        calls s' = [call_shutdown 2, call_shutdown 1]"
proof -
  have "distinct (running_plugins example_running)"
    and "\<forall>p\<in>set (running_plugins example_running). registered_here example_running p"
    by (simp_all add: example_running_def example_app_def registered_here_def
          example_plugin_A_def example_plugin_B_def)
  from shutdown_calls [OF this] obtain s' where
    s': "shutdown example_running = Inr s'"
        "calls s' = calls example_running @ map call_shutdown (rev (running_plugins example_running))"
    by blast
  from shutdown_twice [OF s'(1)] s' show ?thesis
    by (simp add: example_running_def example_app_def)
qed

section \<open>Looking plugins up\<close>

text \<open>
  Claim C8. The registry has one entry per name. \<^verbatim>\<open>find_plugin\<close> gives the pointer of
  the plugin registered under the name, and the null pointer when there is none;
  \<^verbatim>\<open>get_plugin\<close> gives the same pointer, and throws a runtime error that names the
  missing plugin when there is none. Both are functions of the state: they return no
  new state.
\<close>

theorem find_get_plugin:
  assumes "distinct (map fst (plugins s))"
  shows "((n, p) \<in> set (plugins s) \<longrightarrow> find_plugin s n = Some p \<and> get_plugin s n = Inr p)
       \<and> (n \<notin> fst ` set (plugins s) \<longrightarrow>
            find_plugin s n = None \<and>
            get_plugin s n = Inl (runtime_error (''unable to find plugin: '' @ n)))"
proof (intro conjI impI)
  assume "(n, p) \<in> set (plugins s)"
  then have "map_of (plugins s) n = Some p" using assms by simp
  then show "find_plugin s n = Some p" and "get_plugin s n = Inr p"
    by (simp_all add: find_plugin_def get_plugin_def)
next
  assume "n \<notin> fst ` set (plugins s)"
  then have "map_of (plugins s) n = None" by (simp add: map_of_eq_None_iff)
  then show "find_plugin s n = None"
    and "get_plugin s n = Inl (runtime_error (''unable to find plugin: '' @ n))"
    by (simp_all add: find_plugin_def get_plugin_def)
qed

theorem find_get_plugin_witness:
  "find_plugin example_app ''B'' = Some 2 \<and> get_plugin example_app ''B'' = Inr 2
   \<and> find_plugin example_app ''C'' = None
   \<and> get_plugin example_app ''C'' = Inl (runtime_error ''unable to find plugin: C'')"
proof -
  have d: "distinct (map fst (plugins example_app))" by (simp add: example_app_def)
  have "(''B'', 2) \<in> set (plugins example_app)" and "''C'' \<notin> fst ` set (plugins example_app)"
    by (simp_all add: example_app_def)
  with find_get_plugin [OF d, of "''B''" 2] find_get_plugin [OF d, of "''C''" 0]
  show ?thesis by simp
qed

section \<open>The autostart plugins\<close>

lemma plugin_initialize_registered:
  assumes "heap s p = Some pl" and "get_state pl = registered"
  shows "plugin_initialize p s =
           Inr (s\<lparr>calls := calls s @ [call_initialize p],
                  heap := (heap s)(p \<mapsto> pl\<lparr>get_state := initialized\<rparr>),
                  initialized_plugins := initialized_plugins s @ [p]\<rparr>)"
  using assms by (simp add: plugin_initialize_def Let_def)

text \<open>
  Claim C9. Null entries of the autostart list are skipped: the loop does what it does
  on the list without them. When every other entry points to a live plugin the loop
  returns; the plugins whose initialize member it invokes, each once, are exactly the
  entries whose state was \<open>registered\<close>, and they are the ones appended to
  \<open>initialized_plugins\<close>; a plugin in any other state is left as it was.
\<close>

theorem autostart_only_registered:
  assumes "\<forall>p. Some p \<in> set aps \<longrightarrow> heap s p \<noteq> None"
  shows "initialize_autostart aps s = initialize_autostart (filter (\<lambda>a. a \<noteq> None) aps) s
       \<and> (\<exists>s' cs. initialize_autostart aps s = Inr s'
            \<and> calls s' = calls s @ map call_initialize cs
            \<and> initialized_plugins s' = initialized_plugins s @ cs
            \<and> distinct cs
            \<and> (\<forall>p. p \<in> set cs \<longleftrightarrow> Some p \<in> set aps \<and> state_of s p = Some registered)
            \<and> (\<forall>p. state_of s p \<noteq> Some registered \<longrightarrow> heap s' p = heap s p))"
proof
  show "initialize_autostart aps s = initialize_autostart (filter (\<lambda>a. a \<noteq> None) aps) s"
    by (induction aps s rule: initialize_autostart.induct) (auto split: option.splits sum.splits)
next
  from assms
  show "\<exists>s' cs. initialize_autostart aps s = Inr s'
            \<and> calls s' = calls s @ map call_initialize cs
            \<and> initialized_plugins s' = initialized_plugins s @ cs
            \<and> distinct cs
            \<and> (\<forall>p. p \<in> set cs \<longleftrightarrow> Some p \<in> set aps \<and> state_of s p = Some registered)
            \<and> (\<forall>p. state_of s p \<noteq> Some registered \<longrightarrow> heap s' p = heap s p)"
  proof (induction aps arbitrary: s)
    case Nil
    then show ?case by simp
  next
    case (Cons a aps)
    have live: "\<forall>p. Some p \<in> set aps \<longrightarrow> heap s p \<noteq> None" using Cons.prems by simp
    show ?case
    proof (cases a)
      case None
      from Cons.IH [OF live] show ?thesis using None by simp
    next
      case (Some p)
      then obtain pl where pl: "heap s p = Some pl" using Cons.prems by auto
      show ?thesis
      proof (cases "get_state pl = registered")
        case False
        then have st: "state_of s p \<noteq> Some registered" using pl by (simp add: state_of_def)
        from Cons.IH [OF live] obtain s' cs where
          r: "initialize_autostart aps s = Inr s'"
             "calls s' = calls s @ map call_initialize cs"
             "initialized_plugins s' = initialized_plugins s @ cs"
             "distinct cs"
             "\<forall>q. q \<in> set cs \<longleftrightarrow> Some q \<in> set aps \<and> state_of s q = Some registered"
             "\<forall>q. state_of s q \<noteq> Some registered \<longrightarrow> heap s' q = heap s q"
          by blast
        have "initialize_autostart (a # aps) s = Inr s'"
          using Some pl False r(1) by simp
        moreover have "\<forall>q. q \<in> set cs \<longleftrightarrow> Some q \<in> set (a # aps) \<and> state_of s q = Some registered"
          using r(5) st Some by auto
        ultimately show ?thesis using r(2,3,4,6) by blast
      next
        case True
        let ?s1 = "s\<lparr>calls := calls s @ [call_initialize p],
                      heap := (heap s)(p \<mapsto> pl\<lparr>get_state := initialized\<rparr>),
                      initialized_plugins := initialized_plugins s @ [p]\<rparr>"
        have step: "plugin_initialize p s = Inr ?s1"
          by (rule plugin_initialize_registered [OF pl True])
        have st_p: "state_of s p = Some registered" "state_of ?s1 p = Some initialized"
          using pl True by (simp_all add: state_of_def)
        have st_q: "state_of ?s1 q = state_of s q" if "q \<noteq> p" for q
          using that by (simp add: state_of_def)
        have "\<forall>q. Some q \<in> set aps \<longrightarrow> heap ?s1 q \<noteq> None" using live by simp
        from Cons.IH [OF this] obtain s' cs where
          r: "initialize_autostart aps ?s1 = Inr s'"
             "calls s' = calls ?s1 @ map call_initialize cs"
             "initialized_plugins s' = initialized_plugins ?s1 @ cs"
             "distinct cs"
             "\<forall>q. q \<in> set cs \<longleftrightarrow> Some q \<in> set aps \<and> state_of ?s1 q = Some registered"
             "\<forall>q. state_of ?s1 q \<noteq> Some registered \<longrightarrow> heap s' q = heap ?s1 q"
          by blast
        have run: "initialize_autostart (a # aps) s = Inr s'"
          using Some pl True step r(1) by simp
        have notin: "p \<notin> set cs" using r(5) st_p(2) by auto
        have c1: "calls s' = calls s @ map call_initialize (p # cs)" using r(2) by simp
        have c2: "initialized_plugins s' = initialized_plugins s @ (p # cs)" using r(3) by simp
        have c3: "distinct (p # cs)" using r(4) notin by simp
        have c4: "\<forall>q. q \<in> set (p # cs) \<longleftrightarrow>
                     Some q \<in> set (a # aps) \<and> state_of s q = Some registered"
        proof
          fix q
          show "q \<in> set (p # cs) \<longleftrightarrow> Some q \<in> set (a # aps) \<and> state_of s q = Some registered"
          proof (cases "q = p")
            case True
            then show ?thesis using st_p(1) Some by simp
          next
            case False
            then show ?thesis using r(5) st_q [of q] Some by auto
          qed
        qed
        have c5: "\<forall>q. state_of s q \<noteq> Some registered \<longrightarrow> heap s' q = heap s q"
        proof (intro allI impI)
          fix q assume q: "state_of s q \<noteq> Some registered"
          then have ne: "q \<noteq> p" using st_p(1) by auto
          then have "state_of ?s1 q \<noteq> Some registered" using q st_q by simp
          then have "heap s' q = heap ?s1 q" using r(6) by blast
          then show "heap s' q = heap s q" using ne by simp
        qed
        from run c1 c2 c3 c4 c5 show ?thesis by blast
      qed
    qed
  qed
qed

theorem autostart_only_registered_witness:
  "initialize_autostart [Some 2, None, Some 1, Some 1] example_mixed =
     initialize_autostart [Some 2, Some 1, Some 1] example_mixed
   \<and> (\<exists>s' cs. initialize_autostart [Some 2, None, Some 1, Some 1] example_mixed = Inr s'
         \<and> calls s' = map call_initialize cs
         \<and> initialized_plugins s' = 2 # cs
         \<and> distinct cs \<and> set cs = {1}
         \<and> heap s' 2 = heap example_mixed 2)"
proof -
  let ?aps = "[Some 2, None, Some 1, Some (1::nat)]"
  have live: "\<forall>p. Some p \<in> set ?aps \<longrightarrow> heap example_mixed p \<noteq> None"
    by (auto simp: example_mixed_def example_app_def)
  have st: "state_of example_mixed 1 = Some registered"
           "state_of example_mixed 2 = Some initialized"
    by (simp_all add: state_of_def example_mixed_def example_app_def
          example_plugin_A_def example_plugin_B_def)
  from autostart_only_registered [OF live] obtain s' cs where
    r: "initialize_autostart ?aps example_mixed =
          initialize_autostart (filter (\<lambda>a. a \<noteq> None) ?aps) example_mixed"
       "initialize_autostart ?aps example_mixed = Inr s'"
       "calls s' = calls example_mixed @ map call_initialize cs"
       "initialized_plugins s' = initialized_plugins example_mixed @ cs"
       "distinct cs"
       "\<forall>p. p \<in> set cs \<longleftrightarrow> Some p \<in> set ?aps \<and> state_of example_mixed p = Some registered"
       "\<forall>p. state_of example_mixed p \<noteq> Some registered \<longrightarrow> heap s' p = heap example_mixed p"
    by blast
  have "set cs = {1}"
  proof (rule set_eqI)
    fix p show "p \<in> set cs \<longleftrightarrow> p \<in> {1}" using r(6) st by auto
  qed
  moreover have "heap s' 2 = heap example_mixed 2" using r(7) st(2) by simp
  moreover have "calls example_mixed = []" "initialized_plugins example_mixed = [2]"
    by (simp_all add: example_mixed_def example_app_def)
  ultimately show ?thesis using r(1,2,3,4,5) by auto
qed

section \<open>The default configuration file\<close>



lemma create_directory_result:
  assumes "create_directory p s = Inr s'"
  shows "is_directory s' p \<and> cwd s' = cwd s \<and> my_cfg_options s' = my_cfg_options s
         \<and> (\<forall>q. fs s q \<noteq> None \<longrightarrow> fs s' q = fs s q)
         \<and> s' = s\<lparr>fs := fs s'\<rparr>"
  using assms
  by (auto simp: create_directory_def is_directory_def absolute_def
           split: if_splits option.splits node.splits)

lemma create_directories_result:
  "create_directories p s = Inr s' \<Longrightarrow>
     is_directory s' p \<and> cwd s' = cwd s \<and> my_cfg_options s' = my_cfg_options s
     \<and> (\<forall>q. fs s q \<noteq> None \<longrightarrow> fs s' q = fs s q)
     \<and> s' = s\<lparr>fs := fs s'\<rparr>"
proof (induction p s arbitrary: s' rule: create_directories.induct)
  case (1 p s)
  have ne: "p \<noteq> []" using "1.prems" by (subst (asm) create_directories.simps) (auto split: if_splits)
  show ?case
  proof (cases "is_directory s p")
    case True
    then have "s' = s" using "1.prems" ne by (subst (asm) create_directories.simps) simp
    then show ?thesis using True by simp
  next
    case nd: False
    show ?thesis
    proof (cases "parent_path p \<noteq> [] \<and> \<not> exists s (parent_path p)")
      case True
      then obtain s1 where
        s1: "create_directories (parent_path p) s = Inr s1" "create_directory p s1 = Inr s'"
        using "1.prems" ne nd
        by (subst (asm) create_directories.simps) (auto split: sum.splits)
      from "1.IH" [OF ne nd True s1(1)]
      have a: "cwd s1 = cwd s" "my_cfg_options s1 = my_cfg_options s"
              "\<forall>q. fs s q \<noteq> None \<longrightarrow> fs s1 q = fs s q" "s1 = s\<lparr>fs := fs s1\<rparr>"
        by auto
      from create_directory_result [OF s1(2)]
      have b: "is_directory s' p" "cwd s' = cwd s1" "my_cfg_options s' = my_cfg_options s1"
              "\<forall>q. fs s1 q \<noteq> None \<longrightarrow> fs s' q = fs s1 q" "s' = s1\<lparr>fs := fs s'\<rparr>"
        by auto
      have "s' = s\<lparr>fs := fs s'\<rparr>" using a(4) b(5) by (metis application.update_convs(8) application.surjective)
      then show ?thesis using a b by auto
    next
      case False
      then have "create_directory p s = Inr s'"
        using "1.prems" ne nd by (subst (asm) create_directories.simps) auto
      then show ?thesis by (rule create_directory_result)
    qed
  qed
qed







section \<open>Reading the default configuration file back\<close>

lemma split_on_not_Nil: "split_on P xs \<noteq> []"
  by (induction xs) (auto split: list.splits)

lemma split_on_append:
  assumes "P c"
  shows "split_on P (a @ c # b) = split_on P a @ split_on P b"
proof (induction a)
  case Nil
  then show ?case using assms by simp
next
  case (Cons x a)
  obtain t ts where "split_on P a = t # ts"
    using split_on_not_Nil [of P a] by (cases "split_on P a") auto
  then show ?case using Cons by simp
qed

lemma split_on_none:
  assumes "\<forall>c\<in>set a. \<not> P c"
  shows "split_on P a = [a]"
  using assms by (induction a) auto

lemma split_on_line:
  assumes "\<forall>c\<in>set l. \<not> P c" and "P c"
  shows "split_on P (l @ c # rest) = l # split_on P rest"
  using split_on_append [of P c l rest] assms(2) split_on_none [OF assms(1)] by simp

lemma parse_config_lines_skip:
  assumes "trim_ws (takeWhile (\<lambda>c. c \<noteq> CHR ''#'') l) = []"
  shows "parse_config_lines desc pre (ls1 @ l # ls2) = parse_config_lines desc pre (ls1 @ ls2)"
proof (induction ls1 arbitrary: pre)
  case Nil
  then show ?case using assms by simp
next
  case (Cons x ls1)
  then show ?case by (simp add: Let_def)
qed

lemma comment_is_skipped:
  "trim_ws (takeWhile (\<lambda>c. c \<noteq> CHR ''#'') (CHR ''#'' # l)) = []"
  "trim_ws (takeWhile (\<lambda>c. c \<noteq> CHR ''#'') []) = []"
  by (simp_all add: trim_ws_def)

text \<open>
  For an option without a default whose description and name hold no line break, the
  parser skips every line of the entry, wherever the entry stands in the file; so the
  text written for a schema of such descriptions and names parses to what the entries
  of the options with a default alone parse to.
\<close>

lemma undefaulted_block:
  assumes "m_default_value (semantic od) = None"
  shows "config_block od =
           Inr (comment_line od @ ''# '' @ long_name od @ '' = '' @ [CHR 0x0A] @ [CHR 0x0A])"
  using assms by (simp add: config_block_def comment_line_def apply_default_def)

lemma undefaulted_block_skipped:
  assumes "m_default_value (semantic od) = None"
      and a: "CHR 0x0A \<notin> set (description od) \<and> CHR 0x0A \<notin> set (long_name od) \<and>
          (before = [] \<or> last before = CHR 0x0A)"
      and "config_block od = Inr b"
  shows "parse_config_lines desc pre (split_on (\<lambda>c. c = CHR 0x0A) (before @ b @ after)) =
         parse_config_lines desc pre (split_on (\<lambda>c. c = CHR 0x0A) (before @ after))"
proof -
  have b: "b = comment_line od @ ''# '' @ long_name od @ '' = '' @ [CHR 0x0A] @ [CHR 0x0A]"
    using undefaulted_block [OF assms(1)] assms(3) by simp
  let ?nl = "\<lambda>c. c = CHR 0x0A"
  let ?l2 = "''# '' @ long_name od @ '' = ''"
  have l2: "\<forall>c\<in>set ?l2. \<not> ?nl c" using a by auto
  have tail: "split_on ?nl (?l2 @ CHR 0x0A # CHR 0x0A # after) = ?l2 # [] # split_on ?nl after"
    using split_on_line [of ?l2 ?nl "CHR 0x0A" "CHR 0x0A # after"] l2 by simp
  have skip2: "parse_config_lines desc pre (ls1 @ ?l2 # [] # ls2) =
               parse_config_lines desc pre (ls1 @ ls2)" for ls1 ls2
    using parse_config_lines_skip [of ?l2 desc pre ls1 "[] # ls2"]
          parse_config_lines_skip [of "[]" desc pre ls1 ls2]
    by (simp add: trim_ws_def)
  have block: "\<exists>ls. split_on ?nl (b @ after) = ls @ split_on ?nl after \<and>
                 (\<forall>ls1. parse_config_lines desc pre (ls1 @ ls @ split_on ?nl after) =
                        parse_config_lines desc pre (ls1 @ split_on ?nl after))"
  proof (cases "description od = []")
    case True
    then have "split_on ?nl (b @ after) = [?l2, []] @ split_on ?nl after"
      using tail by (simp add: b comment_line_def)
    then show ?thesis using skip2 by auto
  next
    case False
    let ?l1 = "''# '' @ description od"
    have l1: "\<forall>c\<in>set ?l1. \<not> ?nl c" using a by auto
    have "split_on ?nl (b @ after) = split_on ?nl (?l1 @ CHR 0x0A # (?l2 @ CHR 0x0A # CHR 0x0A # after))"
      using False by (simp add: b comment_line_def)
    also have "\<dots> = ?l1 # split_on ?nl (?l2 @ CHR 0x0A # CHR 0x0A # after)"
      using split_on_line [of ?l1 ?nl "CHR 0x0A"] l1 by simp
    finally have sp: "split_on ?nl (b @ after) = [?l1, ?l2, []] @ split_on ?nl after"
      using tail by simp
    have "parse_config_lines desc pre (ls1 @ [?l1, ?l2, []] @ ls2) =
          parse_config_lines desc pre (ls1 @ ls2)" for ls1 ls2
      using parse_config_lines_skip [of ?l1 desc pre ls1 "?l2 # [] # ls2"] skip2 [of ls1 ls2]
      by (simp add: trim_ws_def)
    then show ?thesis using sp by blast
  qed
  then obtain ls where
    ls: "split_on ?nl (b @ after) = ls @ split_on ?nl after"
        "\<forall>ls1. parse_config_lines desc pre (ls1 @ ls @ split_on ?nl after) =
               parse_config_lines desc pre (ls1 @ split_on ?nl after)"
    by blast
  show ?thesis
  proof (cases "before = []")
    case True
    then show ?thesis using ls(1) ls(2) [rule_format, of "[]"] by simp
  next
    case False
    then obtain b0 where b0: "before = b0 @ [CHR 0x0A]"
      using a by (metis append_butlast_last_id)
    have "split_on ?nl (before @ b @ after) = split_on ?nl b0 @ split_on ?nl (b @ after)"
      using split_on_append [of ?nl "CHR 0x0A" b0 "b @ after"] by (simp add: b0)
    moreover have "split_on ?nl (before @ after) = split_on ?nl b0 @ split_on ?nl after"
      using split_on_append [of ?nl "CHR 0x0A" b0 after] by (simp add: b0)
    ultimately show ?thesis using ls(1) ls(2) [rule_format, of "split_on ?nl b0"] by simp
  qed
qed

lemma config_block_ends_line:
  assumes "config_block od = Inr b"
  shows "b \<noteq> [] \<and> last b = CHR 0x0A"
  using assms by (auto simp: config_block_def Let_def split: if_splits)

lemma undefaulted_blocks_skipped:
  assumes "\<forall>od\<in>set ods. CHR 0x0A \<notin> set (description od) \<and> CHR 0x0A \<notin> set (long_name od)"
      and "config_blocks ods = Inr content"
      and "before = [] \<or> last before = CHR 0x0A"
  shows "\<exists>content'.
           config_blocks (filter (\<lambda>od. m_default_value (semantic od) \<noteq> None) ods) = Inr content'
           \<and> parse_config_lines desc pre (split_on (\<lambda>c. c = CHR 0x0A) (before @ content)) =
             parse_config_lines desc pre (split_on (\<lambda>c. c = CHR 0x0A) (before @ content'))"
  using assms
proof (induction ods arbitrary: content before)
  case Nil
  then show ?case by simp
next
  case (Cons od ods)
  from Cons.prems(2) obtain b bs where
    b: "config_block od = Inr b" and bs: "config_blocks ods = Inr bs" and c: "content = b @ bs"
    by (auto split: sum.splits)
  have clean: "\<forall>od\<in>set ods. CHR 0x0A \<notin> set (description od) \<and> CHR 0x0A \<notin> set (long_name od)"
    using Cons.prems(1) by simp
  show ?case
  proof (cases "m_default_value (semantic od) = None")
    case True
    have "parse_config_lines desc pre (split_on (\<lambda>c. c = CHR 0x0A) (before @ b @ bs)) =
          parse_config_lines desc pre (split_on (\<lambda>c. c = CHR 0x0A) (before @ bs))"
      using undefaulted_block_skipped [OF True _ b, of before desc pre bs] Cons.prems(1,3)
      by simp
    moreover from Cons.IH [OF clean bs Cons.prems(3)] obtain content' where
      "config_blocks (filter (\<lambda>od. m_default_value (semantic od) \<noteq> None) ods) = Inr content'"
      "parse_config_lines desc pre (split_on (\<lambda>c. c = CHR 0x0A) (before @ bs)) =
       parse_config_lines desc pre (split_on (\<lambda>c. c = CHR 0x0A) (before @ content'))"
      by blast
    ultimately show ?thesis using True c by simp
  next
    case False
    have "before @ b = [] \<or> last (before @ b) = CHR 0x0A"
      using config_block_ends_line [OF b] by simp
    from Cons.IH [OF clean bs this] obtain content' where
      "config_blocks (filter (\<lambda>od. m_default_value (semantic od) \<noteq> None) ods) = Inr content'"
      "parse_config_lines desc pre (split_on (\<lambda>c. c = CHR 0x0A) ((before @ b) @ bs)) =
       parse_config_lines desc pre (split_on (\<lambda>c. c = CHR 0x0A) ((before @ b) @ content'))"
      by blast
    then show ?thesis using False b c by simp
  qed
qed

text \<open>
  Claim C10 at a failing input. The description is written as it is after \<^verbatim>\<open># \<close>, so
  only its first line is a comment. A plugin declares the option \<^verbatim>\<open>b-key\<close> without a
  default, described in two lines of which the second is the example \<^verbatim>\<open>b-key = 5\<close>.
  The entry written holds the commented-out line \<^verbatim>\<open># b-key = \<close> and, before it, the
  active line \<^verbatim>\<open>b-key = 5\<close>: \<^verbatim>\<open>initialize_impl\<close> writes the file, and parsing the file
  and storing what was parsed sets \<^verbatim>\<open>b-key\<close> to \<^verbatim>\<open>5\<close>. With an ordinary second
  line of description, \<^verbatim>\<open>initialize_impl\<close> throws a syntax error on the file it has
  just written.
\<close>

theorem description_line_break_sets_option:
  "config_block example_described_option =
     Inr ''# The key, for example:\<newline>b-key = 5\<newline># b-key = \<newline>\<newline>''
   \<and> (\<exists>s' options.
        initialize_impl [] [] example_described = Inr (True, s')
        \<and> fs s' ''/home/data-dir/config.ini'' =
            Some (regular_file ''# The key, for example:\<newline>b-key = 5\<newline># b-key = \<newline>\<newline># Plugin(s) to enable, may be specified multiple times\<newline># plugin = \<newline>\<newline>'')
        \<and> parse_config_file ''/home/data-dir/config.ini'' (my_cfg_options s') s' =
            Inr [\<lparr>string_key = ''b-key'', tokens = [''5''], unregistered = False\<rparr>]
        \<and> store [\<lparr>string_key = ''b-key'', tokens = [''5''], unregistered = False\<rparr>]
              (my_cfg_options s') empty_variables_map = Inr options
        \<and> vm_count options ''b-key'' = 1 \<and> as_path options ''b-key'' = Inr ''5'')
   \<and> initialize_impl [] [] example_two_lines = Inl (invalid_config_file_syntax ''see the manual'')"
proof (intro conjI)
  show "config_block example_described_option =
     Inr ''# The key, for example:\<newline>b-key = 5\<newline># b-key = \<newline>\<newline>''"
    by (simp add: config_block_def example_described_option_def apply_default_def)
next
  have "case initialize_impl [] [] example_described of
          Inl e \<Rightarrow> False
        | Inr (b, s') \<Rightarrow>
            b \<and> fs s' ''/home/data-dir/config.ini'' =
            Some (regular_file ''# The key, for example:\<newline>b-key = 5\<newline># b-key = \<newline>\<newline># Plugin(s) to enable, may be specified multiple times\<newline># plugin = \<newline>\<newline>'')
            \<and> parse_config_file ''/home/data-dir/config.ini'' (my_cfg_options s') s' =
                Inr [\<lparr>string_key = ''b-key'', tokens = [''5''], unregistered = False\<rparr>]
            \<and> (case store [\<lparr>string_key = ''b-key'', tokens = [''5''], unregistered = False\<rparr>]
                        (my_cfg_options s') empty_variables_map of
                 Inl e \<Rightarrow> False
               | Inr options \<Rightarrow>
                   vm_count options ''b-key'' = 1 \<and> as_path options ''b-key'' = Inr ''5'')"
    by code_simp
  then obtain s' where
    run: "initialize_impl [] [] example_described = Inr (True, s')"
    and written: "fs s' ''/home/data-dir/config.ini'' =
            Some (regular_file ''# The key, for example:\<newline>b-key = 5\<newline># b-key = \<newline>\<newline># Plugin(s) to enable, may be specified multiple times\<newline># plugin = \<newline>\<newline>'')"
    and parsed: "parse_config_file ''/home/data-dir/config.ini'' (my_cfg_options s') s' =
                Inr [\<lparr>string_key = ''b-key'', tokens = [''5''], unregistered = False\<rparr>]"
    and st: "case store [\<lparr>string_key = ''b-key'', tokens = [''5''], unregistered = False\<rparr>]
                        (my_cfg_options s') empty_variables_map of
                 Inl e \<Rightarrow> False
               | Inr options \<Rightarrow>
                   vm_count options ''b-key'' = 1 \<and> as_path options ''b-key'' = Inr ''5''"
    by (cases "initialize_impl [] [] example_described") (auto split: prod.splits)
  from st obtain options where
    "store [\<lparr>string_key = ''b-key'', tokens = [''5''], unregistered = False\<rparr>]
       (my_cfg_options s') empty_variables_map = Inr options"
    "vm_count options ''b-key'' = 1" "as_path options ''b-key'' = Inr ''5''"
    by (cases "store [\<lparr>string_key = ''b-key'', tokens = [''5''], unregistered = False\<rparr>]
                 (my_cfg_options s') empty_variables_map") auto
  with run written parsed
  show "\<exists>s' options.
        initialize_impl [] [] example_described = Inr (True, s')
        \<and> fs s' ''/home/data-dir/config.ini'' =
            Some (regular_file ''# The key, for example:\<newline>b-key = 5\<newline># b-key = \<newline>\<newline># Plugin(s) to enable, may be specified multiple times\<newline># plugin = \<newline>\<newline>'')
        \<and> parse_config_file ''/home/data-dir/config.ini'' (my_cfg_options s') s' =
            Inr [\<lparr>string_key = ''b-key'', tokens = [''5''], unregistered = False\<rparr>]
        \<and> store [\<lparr>string_key = ''b-key'', tokens = [''5''], unregistered = False\<rparr>]
              (my_cfg_options s') empty_variables_map = Inr options
        \<and> vm_count options ''b-key'' = 1 \<and> as_path options ''b-key'' = Inr ''5''"
    by blast
next
  have "case initialize_impl [] [] example_two_lines of
          Inl e \<Rightarrow> e = invalid_config_file_syntax ''see the manual''
        | Inr r \<Rightarrow> False"
    by code_simp
  then show "initialize_impl [] [] example_two_lines =
               Inl (invalid_config_file_syntax ''see the manual'')"
    by (cases "initialize_impl [] [] example_two_lines") auto
qed

section \<open>The help option\<close>

lemma set_program_options_loop_frame:
  "set_program_options_loop ps s = Inr s1 \<Longrightarrow>
     plugins s1 = plugins s \<and> initialized_plugins s1 = initialized_plugins s
     \<and> running_plugins s1 = running_plugins s \<and> my_data_dir s1 = my_data_dir s
     \<and> heap s1 = heap s \<and> fs s1 = fs s \<and> cwd s1 = cwd s \<and> cout s1 = cout s
     \<and> calls s1 = calls s"
  by (induction ps s rule: set_program_options_loop.induct)
     (auto simp: Let_def new_options_description_def split: option.splits if_splits)

lemma set_program_options_frame:
  assumes "set_program_options s = Inr s1"
  shows "plugins s1 = plugins s \<and> initialized_plugins s1 = initialized_plugins s
     \<and> running_plugins s1 = running_plugins s \<and> my_data_dir s1 = my_data_dir s
     \<and> heap s1 = heap s \<and> fs s1 = fs s \<and> cwd s1 = cwd s \<and> cout s1 = cout s
     \<and> calls s1 = calls s"
proof -
  from assms obtain s0 where
    s0: "set_program_options_loop (plugins s) s = Inr s0"
    and s1: "s1 = s0\<lparr>my_cfg_options := my_cfg_options s1, my_app_options := my_app_options s1\<rparr>"
    by (auto simp: set_program_options_def Let_def split: sum.splits)
  have "plugins s1 = plugins s0 \<and> initialized_plugins s1 = initialized_plugins s0
     \<and> running_plugins s1 = running_plugins s0 \<and> my_data_dir s1 = my_data_dir s0
     \<and> heap s1 = heap s0 \<and> fs s1 = fs s0 \<and> cwd s1 = cwd s0 \<and> cout s1 = cout s0
     \<and> calls s1 = calls s0"
    by (subst (1 2 3 4 5 6 7 8 9) s1) simp
  then show ?thesis using set_program_options_loop_frame [OF s0] by simp
qed









section \<open>The file system under initialize_impl\<close>

lemma plugin_initialize_frame:
  "plugin_initialize p s = Inr s' \<Longrightarrow> fs s' = fs s \<and> cwd s' = cwd s"
  by (auto simp: plugin_initialize_def Let_def split: option.splits if_splits)

lemma initialize_names_frame:
  "initialize_names ns s = Inr s' \<Longrightarrow> fs s' = fs s \<and> cwd s' = cwd s"
proof (induction ns arbitrary: s)
  case Nil
  then show ?case by simp
next
  case (Cons n ns)
  then obtain p s1 where
    "plugin_initialize p s = Inr s1" "initialize_names ns s1 = Inr s'"
    by (auto split: sum.splits)
  then show ?case using Cons.IH [of s1] plugin_initialize_frame [of p s s1] by simp
qed

lemma initialize_args_frame:
  "initialize_args args s = Inr s' \<Longrightarrow> fs s' = fs s \<and> cwd s' = cwd s"
proof (induction args arbitrary: s)
  case Nil
  then show ?case by simp
next
  case (Cons arg args)
  then obtain s1 where
    "initialize_names (split_on (is_any_of [CHR '' '', CHR 0x09, CHR '','']) arg) s = Inr s1"
    "initialize_args args s1 = Inr s'"
    by (auto split: sum.splits)
  then show ?case using Cons.IH [of s1] initialize_names_frame [of _ s s1] by simp
qed

lemma initialize_autostart_frame:
  "initialize_autostart aps s = Inr s' \<Longrightarrow> fs s' = fs s \<and> cwd s' = cwd s"
proof (induction aps s rule: initialize_autostart.induct)
  case (1 s)
  then show ?case by simp
next
  case (2 ps s)
  then show ?case by simp
next
  case (3 p ps s)
  from "3.prems" obtain pl where pl: "heap s p = Some pl" by (auto split: option.splits)
  show ?case
  proof (cases "get_state pl = registered")
    case True
    with "3.prems" pl obtain s1 where
      s1: "plugin_initialize p s = Inr s1" "initialize_autostart ps s1 = Inr s'"
      by (auto split: sum.splits)
    from "3.IH"(1) [OF pl True s1(1) s1(2)] plugin_initialize_frame [OF s1(1)]
    show ?thesis by simp
  next
    case False
    with "3.prems" pl have "initialize_autostart ps s = Inr s'" by simp
    from "3.IH"(2) [OF pl False this] show ?thesis .
  qed
qed

lemma write_default_config_keeps:
  assumes "write_default_config cfg_file s = Inr s'" and "\<not> exists s cfg_file"
  shows "cwd s' = cwd s \<and> (\<forall>q. fs s q \<noteq> None \<longrightarrow> fs s' q = fs s q)"
proof -
  from assms(1) obtain s1 content where
    s1: "(if \<not> exists s (parent_path cfg_file)
          then create_directories (parent_path cfg_file) s else Inr s) = Inr s1"
        "s' = (if ofstream_open s1 cfg_file
               then s1\<lparr>fs := (fs s1)(absolute s1 cfg_file \<mapsto> regular_file content)\<rparr> else s1)"
    by (auto simp: write_default_config_def split: sum.splits)
  have k1: "cwd s1 = cwd s \<and> (\<forall>q. fs s q \<noteq> None \<longrightarrow> fs s1 q = fs s q)"
    using s1(1) create_directories_result [of "parent_path cfg_file" s s1]
    by (auto split: if_splits)
  show ?thesis
  proof (cases "ofstream_open s1 cfg_file")
    case False
    then show ?thesis using k1 s1(2) by simp
  next
    case True
    then have ne: "cfg_file \<noteq> []" by (simp add: ofstream_open_def)
    have abs: "absolute s1 cfg_file = absolute s cfg_file" using k1 by (simp add: absolute_def)
    have none: "fs s (absolute s cfg_file) = None" using assms(2) ne by (simp add: exists_def)
    have "fs s' q = fs s q" if "fs s q \<noteq> None" for q
    proof -
      have "q \<noteq> absolute s cfg_file" using that none by auto
      then have "fs s' q = fs s1 q" using True s1(2) abs by simp
      then show ?thesis using k1 that by simp
    qed
    moreover have "cwd s' = cwd s" using True s1(2) k1 by simp
    ultimately show ?thesis by blast
  qed
qed

lemma initialize_rest_keeps:
  assumes "initialize_rest options aps s = Inr (b, s')"
  shows "(\<forall>q. fs s q \<noteq> None \<longrightarrow> fs s' q = fs s q)
       \<and> (\<forall>data_dir config_file_name.
            resolve_data_dir options s = Inr data_dir \<and>
            resolve_config_file_name options data_dir = Inr config_file_name \<and>
            exists s config_file_name \<longrightarrow> fs s' = fs s)"
proof -
  from assms obtain data_dir config_file_name s1 s2 where
    r: "resolve_data_dir options s = Inr data_dir"
       "resolve_config_file_name options data_dir = Inr config_file_name"
       "(if \<not> exists (s\<lparr>my_data_dir := data_dir\<rparr>) config_file_name
         then write_default_config config_file_name (s\<lparr>my_data_dir := data_dir\<rparr>)
         else Inr (s\<lparr>my_data_dir := data_dir\<rparr>)) = Inr s1"
       "fs s2 = fs s1" "cwd s2 = cwd s1"
       "initialize_autostart aps s2 = Inr s'"
    unfolding initialize_rest_def
    by (auto split: sum.splits if_splits dest: initialize_args_frame)
  have ex: "exists (s\<lparr>my_data_dir := data_dir\<rparr>) config_file_name = exists s config_file_name"
    by (simp add: exists_def absolute_def)
  have last: "fs s' = fs s1" using initialize_autostart_frame [OF r(6)] r(4) by simp
  have keep: "\<forall>q. fs s q \<noteq> None \<longrightarrow> fs s1 q = fs s q"
  proof (cases "exists s config_file_name")
    case True
    then show ?thesis using r(3) ex by auto
  next
    case False
    then have "write_default_config config_file_name (s\<lparr>my_data_dir := data_dir\<rparr>) = Inr s1"
      using r(3) ex by simp
    from write_default_config_keeps [OF this] False ex show ?thesis by simp
  qed
  have same: "fs s1 = fs s" if "exists s config_file_name"
    using that r(3) ex by auto
  show ?thesis using last keep same r(1,2) by auto
qed

text \<open>
  Claim C6. \<^verbatim>\<open>initialize_impl\<close> never changes a node that exists: whatever is in the
  file system on entry is there, with the same contents, when it returns. When a node
  exists at the name it resolves for the configuration file, the file system is left
  exactly as it was, so nothing is written. In particular a second run, on the file
  system the first run left, changes no file the first run left.
\<close>

theorem existing_config_never_modified:
  "(initialize_impl argv aps s = Inr (b, s') \<longrightarrow>
      (\<forall>p. fs s p \<noteq> None \<longrightarrow> fs s' p = fs s p))
   \<and> (initialize_impl argv aps s = Inr (b, s') \<and>
      set_program_options s = Inr s1 \<and>
      parse_command_line argv (my_app_options s1) = Inr parsed \<and>
      store parsed (my_app_options s1) empty_variables_map = Inr options \<and>
      resolve_data_dir options s1 = Inr data_dir \<and>
      resolve_config_file_name options data_dir = Inr config_file_name \<and>
      exists s config_file_name \<longrightarrow> fs s' = fs s)
   \<and> (initialize_impl argv aps s = Inr (b, s') \<and> fs t = fs s' \<and>
      initialize_impl argv2 aps2 t = Inr (b2, t') \<longrightarrow>
      (\<forall>p. fs s' p \<noteq> None \<longrightarrow> fs t' p = fs s' p))"
proof -
  have keep: "\<forall>p. fs s p \<noteq> None \<longrightarrow> fs s' p = fs s p"
    if run: "initialize_impl argv aps s = Inr (b, s')" for argv aps s b s'
  proof -
    from run obtain s1 parsed options where
      h: "set_program_options s = Inr s1"
         "parse_command_line argv (my_app_options s1) = Inr parsed"
         "store parsed (my_app_options s1) empty_variables_map = Inr options"
      by (auto simp: initialize_impl_def split: sum.splits)
    have f: "fs s1 = fs s" using set_program_options_frame [OF h(1)] by simp
    show ?thesis
    proof (cases "vm_count options ''help'' \<noteq> 0")
      case True
      then show ?thesis using run h f by (auto simp: initialize_impl_def)
    next
      case False
      then have "initialize_rest options aps s1 = Inr (b, s')"
        using run h by (simp add: initialize_impl_def)
      from initialize_rest_keeps [OF this] f show ?thesis by simp
    qed
  qed
  have same: "fs s' = fs s"
    if run: "initialize_impl argv aps s = Inr (b, s')"
      and h: "set_program_options s = Inr s1"
         "parse_command_line argv (my_app_options s1) = Inr parsed"
         "store parsed (my_app_options s1) empty_variables_map = Inr options"
         "resolve_data_dir options s1 = Inr data_dir"
         "resolve_config_file_name options data_dir = Inr config_file_name"
         "exists s config_file_name"
  proof -
    have f: "fs s1 = fs s" "cwd s1 = cwd s" using set_program_options_frame [OF h(1)] by simp_all
    then have "absolute s1 config_file_name = absolute s config_file_name"
      by (simp add: absolute_def)
    then have ex: "exists s1 config_file_name" using h(6) f(1) by (simp add: exists_def)
    show ?thesis
    proof (cases "vm_count options ''help'' \<noteq> 0")
      case True
      then show ?thesis using run h(1,2,3) f by (auto simp: initialize_impl_def)
    next
      case False
      then have "initialize_rest options aps s1 = Inr (b, s')"
        using run h(1,2,3) by (simp add: initialize_impl_def)
      from initialize_rest_keeps [OF this] h(4,5) ex f show ?thesis by auto
    qed
  qed
  have twice: "\<forall>p. fs s' p \<noteq> None \<longrightarrow> fs t' p = fs s' p"
    if "fs t = fs s'" and "initialize_impl argv2 aps2 t = Inr (b2, t')"
    using keep [OF that(2)] that(1) by simp
  show ?thesis using keep same twice by blast
qed

theorem existing_config_never_modified_witness:
  "\<exists>s' t'. initialize_impl [] [] example_app = Inr (True, s')
     \<and> fs s' ''/home'' = Some directory
     \<and> initialize_impl [] [] (example_app\<lparr>fs := fs s'\<rparr>) = Inr (True, t')
     \<and> fs t' = fs s'
     \<and> fs t' ''/home/data-dir/config.ini'' = fs s' ''/home/data-dir/config.ini''
     \<and> fs s' ''/home/data-dir/config.ini'' \<noteq> None"
proof -
  have "case initialize_impl [] [] example_app of
          Inl e \<Rightarrow> False
        | Inr (b, s') \<Rightarrow>
            b \<and> fs s' ''/home/data-dir/config.ini'' \<noteq> None \<and>
            (case set_program_options (example_app\<lparr>fs := fs s'\<rparr>) of
               Inl e \<Rightarrow> False
             | Inr s1 \<Rightarrow>
            (case parse_command_line [] (my_app_options s1) of
               Inl e \<Rightarrow> False
             | Inr parsed \<Rightarrow>
            (case store parsed (my_app_options s1) empty_variables_map of
               Inl e \<Rightarrow> False
             | Inr options \<Rightarrow>
            (case resolve_data_dir options s1 of
               Inl e \<Rightarrow> False
             | Inr data_dir \<Rightarrow>
            (case resolve_config_file_name options data_dir of
               Inl e \<Rightarrow> False
             | Inr config_file_name \<Rightarrow>
                 exists (example_app\<lparr>fs := fs s'\<rparr>) config_file_name \<and>
                 (case initialize_impl [] [] (example_app\<lparr>fs := fs s'\<rparr>) of
                    Inl e \<Rightarrow> False
                  | Inr (b2, t') \<Rightarrow> b2))))))"
    by code_simp
  then obtain b s' where
    run1': "initialize_impl [] [] example_app = Inr (b, s')"
    and r1: "b \<and> fs s' ''/home/data-dir/config.ini'' \<noteq> None \<and>
            (case set_program_options (example_app\<lparr>fs := fs s'\<rparr>) of
               Inl e \<Rightarrow> False
             | Inr s1 \<Rightarrow>
            (case parse_command_line [] (my_app_options s1) of
               Inl e \<Rightarrow> False
             | Inr parsed \<Rightarrow>
            (case store parsed (my_app_options s1) empty_variables_map of
               Inl e \<Rightarrow> False
             | Inr options \<Rightarrow>
            (case resolve_data_dir options s1 of
               Inl e \<Rightarrow> False
             | Inr data_dir \<Rightarrow>
            (case resolve_config_file_name options data_dir of
               Inl e \<Rightarrow> False
             | Inr config_file_name \<Rightarrow>
                 exists (example_app\<lparr>fs := fs s'\<rparr>) config_file_name \<and>
                 (case initialize_impl [] [] (example_app\<lparr>fs := fs s'\<rparr>) of
                    Inl e \<Rightarrow> False
                  | Inr (b2, t') \<Rightarrow> b2))))))"
    by (cases "initialize_impl [] [] example_app") (auto split: prod.splits)
  from r1 have run1: "initialize_impl [] [] example_app = Inr (True, s')"
    and written: "fs s' ''/home/data-dir/config.ini'' \<noteq> None"
    using run1' by simp_all
  from r1 obtain s1 where h1: "set_program_options (example_app\<lparr>fs := fs s'\<rparr>) = Inr s1"
    and r2: "case parse_command_line [] (my_app_options s1) of
               Inl e \<Rightarrow> False
             | Inr parsed \<Rightarrow>
            (case store parsed (my_app_options s1) empty_variables_map of
               Inl e \<Rightarrow> False
             | Inr options \<Rightarrow>
            (case resolve_data_dir options s1 of
               Inl e \<Rightarrow> False
             | Inr data_dir \<Rightarrow>
            (case resolve_config_file_name options data_dir of
               Inl e \<Rightarrow> False
             | Inr config_file_name \<Rightarrow>
                 exists (example_app\<lparr>fs := fs s'\<rparr>) config_file_name \<and>
                 (case initialize_impl [] [] (example_app\<lparr>fs := fs s'\<rparr>) of
                    Inl e \<Rightarrow> False
                  | Inr (b2, t') \<Rightarrow> b2))))"
    by (cases "set_program_options (example_app\<lparr>fs := fs s'\<rparr>)") auto
  from r2 obtain parsed where h2: "parse_command_line [] (my_app_options s1) = Inr parsed"
    and r3: "case store parsed (my_app_options s1) empty_variables_map of
               Inl e \<Rightarrow> False
             | Inr options \<Rightarrow>
            (case resolve_data_dir options s1 of
               Inl e \<Rightarrow> False
             | Inr data_dir \<Rightarrow>
            (case resolve_config_file_name options data_dir of
               Inl e \<Rightarrow> False
             | Inr config_file_name \<Rightarrow>
                 exists (example_app\<lparr>fs := fs s'\<rparr>) config_file_name \<and>
                 (case initialize_impl [] [] (example_app\<lparr>fs := fs s'\<rparr>) of
                    Inl e \<Rightarrow> False
                  | Inr (b2, t') \<Rightarrow> b2)))"
    by (cases "parse_command_line [] (my_app_options s1)") auto
  from r3 obtain options where
    h3: "store parsed (my_app_options s1) empty_variables_map = Inr options"
    and r4: "case resolve_data_dir options s1 of
               Inl e \<Rightarrow> False
             | Inr data_dir \<Rightarrow>
            (case resolve_config_file_name options data_dir of
               Inl e \<Rightarrow> False
             | Inr config_file_name \<Rightarrow>
                 exists (example_app\<lparr>fs := fs s'\<rparr>) config_file_name \<and>
                 (case initialize_impl [] [] (example_app\<lparr>fs := fs s'\<rparr>) of
                    Inl e \<Rightarrow> False
                  | Inr (b2, t') \<Rightarrow> b2))"
    by (cases "store parsed (my_app_options s1) empty_variables_map") auto
  from r4 obtain data_dir where h4: "resolve_data_dir options s1 = Inr data_dir"
    and r5: "case resolve_config_file_name options data_dir of
               Inl e \<Rightarrow> False
             | Inr config_file_name \<Rightarrow>
                 exists (example_app\<lparr>fs := fs s'\<rparr>) config_file_name \<and>
                 (case initialize_impl [] [] (example_app\<lparr>fs := fs s'\<rparr>) of
                    Inl e \<Rightarrow> False
                  | Inr (b2, t') \<Rightarrow> b2)"
    by (cases "resolve_data_dir options s1") auto
  from r5 obtain config_file_name where
    h5: "resolve_config_file_name options data_dir = Inr config_file_name"
    and h6: "exists (example_app\<lparr>fs := fs s'\<rparr>) config_file_name"
    and r6: "case initialize_impl [] [] (example_app\<lparr>fs := fs s'\<rparr>) of
                    Inl e \<Rightarrow> False
                  | Inr (b2, t') \<Rightarrow> b2"
    by (cases "resolve_config_file_name options data_dir") auto
  from r6 obtain t' where
    run2: "initialize_impl [] [] (example_app\<lparr>fs := fs s'\<rparr>) = Inr (True, t')"
    by (cases "initialize_impl [] [] (example_app\<lparr>fs := fs s'\<rparr>)") (auto split: prod.splits)
  note h = h1 h2 h3 h4 h5 h6
  let ?t = "example_app\<lparr>fs := fs s'\<rparr>"
  have home: "fs example_app ''/home'' = Some directory" by (simp add: example_app_def)
  have a: "fs s' ''/home'' = Some directory"
    using existing_config_never_modified [of "[]" "[]" example_app True s'] run1 home by auto
  have b: "fs t' = fs ?t"
    using existing_config_never_modified
            [of "[]" "[]" ?t True t' s1 parsed options data_dir config_file_name]
          run2 h by blast
  have c: "fs t' ''/home/data-dir/config.ini'' = fs s' ''/home/data-dir/config.ini''"
    using existing_config_never_modified [of "[]" "[]" example_app True s' _ _ _ _ _ ?t "[]" "[]" True t']
          run1 run2 written by auto
  show ?thesis using run1 run2 a b c written by auto
qed

section \<open>The config and version options\<close>

text \<open>
  Claim C3 at a failing input. The data directory \<^verbatim>\<open>/home/data-dir\<close> holds \<^verbatim>\<open>my.ini\<close>,
  which enables plugin A, and the command line is \<^verbatim>\<open>--config my.ini\<close>. The name
  \<^verbatim>\<open>resolve_config_file_name\<close> gives is \<^verbatim>\<open>config.ini\<close> in the data directory whatever
  the option says. \<^verbatim>\<open>initialize_impl\<close> writes the default configuration to
  \<^verbatim>\<open>/home/data-dir/config.ini\<close> and parses that file: \<^verbatim>\<open>my.ini\<close> is not read, and
  plugin A is not initialized.
\<close>

theorem config_option_ignored:
  "(\<forall>options data_dir.
      resolve_config_file_name options data_dir = Inr (path_append data_dir ''config.ini'')
      \<or> resolve_config_file_name options data_dir = Inl bad_any_cast)
   \<and> (\<exists>s'. initialize_impl [(''config'', [''my.ini''])] [] example_my_ini = Inr (True, s')
         \<and> fs s' ''/home/data-dir/config.ini'' =
             Some (regular_file ''# The port\<newline>a-port = 8080\<newline>\<newline>a-verbose = false\<newline>\<newline># The key\<newline># b-key = \<newline>\<newline># Plugin(s) to enable, may be specified multiple times\<newline># plugin = \<newline>\<newline>'')
         \<and> fs s' ''/home/data-dir/my.ini'' = Some (regular_file ''plugin = A\<newline>'')
         \<and> initialized_plugins s' = [] \<and> calls s' = [])"
proof
  show "\<forall>options data_dir.
      resolve_config_file_name options data_dir = Inr (path_append data_dir ''config.ini'')
      \<or> resolve_config_file_name options data_dir = Inl bad_any_cast"
    by (auto simp: resolve_config_file_name_def Let_def as_path_def
             split: sum.splits option.splits any.splits)
next
  have "case initialize_impl [(''config'', [''my.ini''])] [] example_my_ini of
          Inl e \<Rightarrow> False
        | Inr (b, s') \<Rightarrow>
            b \<and> fs s' ''/home/data-dir/config.ini'' =
             Some (regular_file ''# The port\<newline>a-port = 8080\<newline>\<newline>a-verbose = false\<newline>\<newline># The key\<newline># b-key = \<newline>\<newline># Plugin(s) to enable, may be specified multiple times\<newline># plugin = \<newline>\<newline>'')
         \<and> fs s' ''/home/data-dir/my.ini'' = Some (regular_file ''plugin = A\<newline>'')
         \<and> initialized_plugins s' = [] \<and> calls s' = []"
    by code_simp
  then show "\<exists>s'. initialize_impl [(''config'', [''my.ini''])] [] example_my_ini = Inr (True, s')
         \<and> fs s' ''/home/data-dir/config.ini'' =
             Some (regular_file ''# The port\<newline>a-port = 8080\<newline>\<newline>a-verbose = false\<newline>\<newline># The key\<newline># b-key = \<newline>\<newline># Plugin(s) to enable, may be specified multiple times\<newline># plugin = \<newline>\<newline>'')
         \<and> fs s' ''/home/data-dir/my.ini'' = Some (regular_file ''plugin = A\<newline>'')
         \<and> initialized_plugins s' = [] \<and> calls s' = []"
    by (cases "initialize_impl [(''config'', [''my.ini''])] [] example_my_ini")
       (auto split: prod.splits)
qed

text \<open>
  Claim C4 at a failing input. With \<^verbatim>\<open>--version --plugin A\<close> on the command line
  \<^verbatim>\<open>initialize_impl\<close> prints nothing, initializes plugin A and returns \<^verbatim>\<open>true\<close>: the
  version option is declared and never read.
\<close>

theorem version_option_not_handled:
  "\<exists>s'. initialize_impl [(''version'', []), (''plugin'', [''A''])] [] example_app
           = Inr (True, s')
       \<and> cout s' = [] \<and> calls s' = [call_initialize 1] \<and> initialized_plugins s' = [1]
       \<and> state_of s' 1 = Some initialized"
proof -
  have "case initialize_impl [(''version'', []), (''plugin'', [''A''])] [] example_app of
          Inl e \<Rightarrow> False
        | Inr (b, s') \<Rightarrow>
            b \<and> cout s' = [] \<and> calls s' = [call_initialize 1] \<and> initialized_plugins s' = [1]
            \<and> state_of s' 1 = Some initialized"
    by code_simp
  then show ?thesis
    by (cases "initialize_impl [(''version'', []), (''plugin'', [''A''])] [] example_app")
       (auto split: prod.splits)
qed

end
